theory Spec2Isabelle
  imports Main "HOL-Library.Sublist"
begin

section \<open>Strings and numbers as the component uses them\<close>

text \<open>
  The component under study is the React function component \<open>App\<close> of
  \<open>src/App.tsx\<close>; line numbers refer to that file. (The repository holds a second,
  earlier copy of the component without camera preference, stream acquisition and
  cooldown; where it differs this is said in the text.) JavaScript strings are
  modelled as \<^typ>\<open>string\<close>; the labels, payloads and messages that occur are
  taken to be ASCII, so that \<open>toLowerCase\<close> only has to move the letters A to Z.
\<close>

definition newline :: string where
  "newline = [CHR 0x0A]"

text \<open>\<open>Array.prototype.join\<close>: the elements with the separator between neighbours.\<close>

fun join_str :: "string \<Rightarrow> string list \<Rightarrow> string" where
  "join_str sep [] = []"
| "join_str sep [x] = x"
| "join_str sep (x # y # ys) = x @ sep @ join_str sep (y # ys)"

text \<open>
  \<open>String.prototype.split\<close> on a one-character separator: the fields between the
  separators, one more than there are separators. No function of the component calls
  it; it is what a reader of the exported text does to get the values back.
\<close>

fun split_str :: "char \<Rightarrow> string \<Rightarrow> string list" where
  "split_str d [] = [[]]"
| "split_str d (c # cs) =
     (if c = d then [] # split_str d cs
      else (case split_str d cs of
              f # fs \<Rightarrow> (c # f) # fs
            | [] \<Rightarrow> [[c]]))"

text \<open>\<open>String.prototype.includes\<close>: the argument occurs as a contiguous substring.\<close>

fun includes_str :: "string \<Rightarrow> string \<Rightarrow> bool" where
  "includes_str [] sub = (sub = [])"
| "includes_str (c # cs) sub = (prefix sub (c # cs) \<or> includes_str cs sub)"

definition toLowerChar :: "char \<Rightarrow> char" where
  "toLowerChar c =
     (case map_of (zip ''ABCDEFGHIJKLMNOPQRSTUVWXYZ'' ''abcdefghijklmnopqrstuvwxyz'') c of
        Some l \<Rightarrow> l
      | None \<Rightarrow> c)"

definition toLowerCase :: "string \<Rightarrow> string" where
  "toLowerCase s = map toLowerChar s"

text \<open>
  The specification's words for the camera heuristic are ``contains, ignoring case''.
  The three definitions below say that without \<open>toLowerCase\<close>, to compare the
  code with: two characters are the same letter when they are equal or are the
  upper-case and lower-case form of one ASCII letter, a string starts with a word
  ignoring case when it matches the word letter by letter, and it contains the word
  ignoring case when one of its suffixes starts with it.
\<close>

definition sameLetter :: "char \<Rightarrow> char \<Rightarrow> bool" where
  "sameLetter a b =
     (a = b \<or>
      (a, b) \<in> set (zip ''ABCDEFGHIJKLMNOPQRSTUVWXYZ'' ''abcdefghijklmnopqrstuvwxyz'') \<or>
      (b, a) \<in> set (zip ''ABCDEFGHIJKLMNOPQRSTUVWXYZ'' ''abcdefghijklmnopqrstuvwxyz''))"

fun startsWithIgnoringCase :: "string \<Rightarrow> string \<Rightarrow> bool" where
  "startsWithIgnoringCase s [] = True"
| "startsWithIgnoringCase [] (a # w) = False"
| "startsWithIgnoringCase (b # s) (a # w) = (sameLetter a b \<and> startsWithIgnoringCase s w)"

fun containsIgnoringCase :: "string \<Rightarrow> string \<Rightarrow> bool" where
  "containsIgnoringCase [] w = (w = [])"
| "containsIgnoringCase (c # cs) w =
     (startsWithIgnoringCase (c # cs) w \<or> containsIgnoringCase cs w)"

text \<open>
  \<open>Number.prototype.toString\<close> on a non-negative integer (\<open>Date.now()\<close>, an array
  length, an index plus one): its decimal digits, most significant first. \<open>digit\<close>
  is only applied to numbers below ten.
\<close>

definition digit :: "nat \<Rightarrow> char" where
  "digit d = ''0123456789'' ! d"

function toString :: "nat \<Rightarrow> string" where
  "toString n = (if n < 10 then [digit n] else toString (n div 10) @ [digit (n mod 10)])"
  by pat_completeness auto
termination
  by (relation "measure (\<lambda>n. n)") auto

declare toString.simps [simp del]

section \<open>Data model (App.tsx, lines 5 to 25)\<close>

text \<open>
  \<open>interface ScannedCode { id; text; timestamp }\<close>. The fields \<open>id\<close> and \<open>text\<close>
  carry the suffix \<open>_code\<close> here. A \<open>Date\<close> is its millisecond count.
\<close>

record ScannedCode =
  id_code :: string
  text_code :: string
  timestamp :: nat

text \<open>
  \<open>interface CameraDevice { deviceId; label }\<close>. The browser's \<open>MediaDeviceInfo\<close>
  objects returned by \<open>listVideoInputDevices\<close> are read through the same two fields
  and share the type.
\<close>

record CameraDevice =
  deviceId :: string
  label :: string

text \<open>
  The three constraint objects passed to \<open>getUserMedia\<close>: the permission probe of
  \<open>loadCameras\<close> (lines 85 to 91), the full constraints of \<open>startScanning\<close> for a
  device id (lines 161 to 166) and its fallback constraints (line 189).
\<close>

datatype constraints = PermissionProbe | FullConstraints string | FallbackConstraints string

text \<open>
  What the component does to the world outside React's state, in the order it does it.
  A \<open>TrackStop i k\<close> is \<open>track.stop()\<close> on track \<open>k\<close> of the \<open>i\<close>-th stream that
  \<open>getUserMedia\<close> handed out.
\<close>

datatype effect =
    GetUserMedia constraints
  | TrackStop nat nat
  | ApplyConstraints nat
  | ReaderCreate
  | ReaderReset
  | ListVideoInputDevices
  | DecodeFromVideoDevice string
  | ConsoleLog "string list"
  | ConsoleError "string list"
  | ClipboardWriteText string
  | TextAreaAppend string
  | ExecCommandCopy
  | TextAreaRemove
  | Alert string

text \<open>The two \<open>setTimeout\<close> callbacks of the decode callback (lines 258 and 265).\<close>

datatype timer_action = RevertAccepted | RevertDuplicate

text \<open>
  The mutable variables the decode callback closes over (lines 219 to 221), and the
  \<open>scannedCodes\<close> binding it closes over: the callback is created inside
  \<open>startScanning\<close>, so the binding is the one of the render whose \<open>startScanning\<close>
  ran, a constant from then on.
\<close>

record closure =
  closed_scannedCodes :: "ScannedCode list"
  lastScanTime :: nat
  scanAttempts :: nat

text \<open>
  \<open>loadCameras\<close> and \<open>startScanning\<close> are \<open>async\<close>: at each \<open>await\<close> the function
  is suspended and other events are handled until the browser answers. A suspended
  \<open>loadCameras\<close> waits for the permission probe (line 92) or for the device list
  (line 99). A suspended \<open>startScanning\<close> waits for its \<open>loadCameras\<close> call (line
  146), for the stream requested with the full constraints of a device (line 170),
  for \<open>applyConstraints\<close> on a stream it holds but has not bound yet (line 178),
  for the stream requested with the fallback constraints (line 188), or for the
  video element to report its metadata (line 199).
\<close>

datatype load_stage = AwaitPermission | AwaitListing

datatype start_stage =
    AwaitReload load_stage
  | AwaitFullStream string
  | AwaitApplyConstraints string nat
  | AwaitFallbackStream string
  | AwaitVideoReady string

text \<open>
  The component's state: the seven \<open>useState\<close> cells, the two refs (\<open>True\<close> when
  \<open>current\<close> is not null), the video element's \<open>srcObject\<close> and style, the streams
  \<open>getUserMedia\<close> has handed out (one list of track flags per stream, \<open>True\<close> while
  the track is live), the continuous-decode subscription of the reader, the pending
  timeouts, the effects so far, and the suspended calls of \<open>loadCameras\<close> and of
  \<open>startScanning\<close>, the latter each with the \<open>scannedCodes\<close> of the render it was
  called in.
\<close>

record app =
  scannedCodes :: "ScannedCode list"
  isScanning :: bool
  error :: "string option"
  availableCameras :: "CameraDevice list"
  selectedCameraId :: string
  isLoading :: bool
  scanStatus :: string
  codeReaderRef :: bool
  videoRef :: bool
  srcObject :: "nat option"
  border :: string
  boxShadow :: string
  streams :: "bool list list"
  decoding :: "closure option"
  timers :: "(nat \<times> timer_action) list"
  effects :: "effect list"
  pendingLoads :: "load_stage list"
  pendingStarts :: "(start_stage \<times> ScannedCode list) list"

definition emit :: "effect list \<Rightarrow> app \<Rightarrow> app" where
  "emit es s = s\<lparr>effects := effects s @ es\<rparr>"

section \<open>copyAll (App.tsx, lines 316 to 340)\<close>

text \<open>
  Line 319: \<open>scannedCodes.map(code => code.text).join('\n')\<close>.
\<close>

definition allText :: "ScannedCode list \<Rightarrow> string" where
  "allText codes = join_str newline (map text_code codes)"

text \<open>
  The two calls whose failure \<open>copyAll\<close> catches: \<open>navigator.clipboard.writeText\<close>
  resolves or rejects, \<open>document.execCommand('copy')\<close> returns or throws.
\<close>

record copy_env =
  writeTextOk :: bool
  execCommandOk :: bool

definition copiedNotice :: "ScannedCode list \<Rightarrow> string" where
  "copiedNotice codes = ''Copied '' @ toString (length codes) @ '' barcode(s) to clipboard!''"

definition copyAll :: "copy_env \<Rightarrow> app \<Rightarrow> app" where
  "copyAll env s =
     (if length (scannedCodes s) = 0 then s
      else
        let joined = allText (scannedCodes s) in
        if writeTextOk env then
          emit [ClipboardWriteText joined, Alert (copiedNotice (scannedCodes s))] s
        else
          emit ([ClipboardWriteText joined, TextAreaAppend joined, ExecCommandCopy]
                @ [if execCommandOk env then Alert (copiedNotice (scannedCodes s))
                   else Alert ''Failed to copy to clipboard'']
                @ [TextAreaRemove]) s)"

section \<open>clearAll and removeCode (App.tsx, lines 342 to 348)\<close>

definition clearAll :: "app \<Rightarrow> app" where
  "clearAll s = s\<lparr>scannedCodes := []\<rparr>"

definition removeCode :: "string \<Rightarrow> app \<Rightarrow> app" where
  "removeCode i s = s\<lparr>scannedCodes := filter (\<lambda>code. id_code code \<noteq> i) (scannedCodes s)\<rparr>"

section \<open>Camera streams\<close>

text \<open>
  What a thrown or rejected value is to the \<open>catch\<close> blocks of the component: an
  \<open>Error\<close> instance with its message, or something else.
\<close>

datatype exn = Error string | NotAnError

text \<open>
  \<open>getUserMedia\<close> resolves with a fresh stream of some number of live tracks, or
  rejects. The outcome is the browser's and is a parameter of the model.
\<close>

datatype media_outcome = Granted nat | Rejected exn

definition openStream :: "constraints \<Rightarrow> nat \<Rightarrow> app \<Rightarrow> app" where
  "openStream cs n s = emit [GetUserMedia cs] (s\<lparr>streams := streams s @ [replicate n True]\<rparr>)"

text \<open>\<open>stream.getTracks().forEach(track => track.stop())\<close> on the \<open>i\<close>-th stream.\<close>

definition stopTracks :: "nat \<Rightarrow> app \<Rightarrow> app" where
  "stopTracks i s =
     (if i < length (streams s) then
        emit (map (TrackStop i) [0..<length (streams s ! i)])
          (s\<lparr>streams := (streams s)[i := map (\<lambda>_. False) (streams s ! i)]\<rparr>)
      else s)"

definition liveStream :: "bool list \<Rightarrow> bool" where
  "liveStream tracks = list_ex (\<lambda>live. live) tracks"

definition liveStreams :: "app \<Rightarrow> nat list" where
  "liveStreams s = filter (\<lambda>i. liveStream (streams s ! i)) [0..<length (streams s)]"

section \<open>loadCameras (App.tsx, lines 57 to 134)\<close>

text \<open>
  Lines 105 to 108. The devices of one enumeration are distinct objects, so
  \<open>devices.indexOf(device)\<close> is the position of \<open>device\<close>; an empty label is falsy
  and is replaced by \<open>Camera N\<close>.
\<close>

definition cameraList :: "CameraDevice list \<Rightarrow> CameraDevice list" where
  "cameraList devices =
     map (\<lambda>(i, device).
            \<lparr>deviceId = deviceId device,
             label = (if label device \<noteq> [] then label device
                      else ''Camera '' @ toString (i + 1))\<rparr>)
         (enumerate 0 devices)"

text \<open>The predicate of the \<open>find\<close> call, lines 112 to 116.\<close>

definition isBackCamera :: "CameraDevice \<Rightarrow> bool" where
  "isBackCamera cam =
     (includes_str (toLowerCase (label cam)) ''back'' \<or>
      includes_str (toLowerCase (label cam)) ''rear'' \<or>
      includes_str (toLowerCase (label cam)) ''environment'')"

text \<open>
  Lines 111 to 123. \<open>loadCameras\<close> reaches these lines with a non-empty list only
  (line 101 throws otherwise).
\<close>

definition preferredCamera :: "CameraDevice list \<Rightarrow> CameraDevice" where
  "preferredCamera cams =
     (case find isBackCamera cams of
        Some backCamera \<Rightarrow> backCamera
      | None \<Rightarrow>
          if length cams > 1 then cams ! (length cams - 1) else cams ! 0)"

text \<open>\<open>listVideoInputDevices\<close> resolves with the devices or rejects.\<close>

datatype listing_outcome = Listed "CameraDevice list" | ListingFailed exn

record load_env =
  permission :: media_outcome
  listing :: listing_outcome

definition errorMessage :: "string \<Rightarrow> exn \<Rightarrow> string" where
  "errorMessage fallback e = (case e of Error m \<Rightarrow> m | NotAnError \<Rightarrow> fallback)"

text \<open>
  The \<open>try\<close> block of lines 58 to 126: the exception it ends with, if any, and the
  state at that point.
\<close>

definition loadCamerasTry :: "load_env \<Rightarrow> app \<Rightarrow> exn option \<times> app" where
  "loadCamerasTry env s0 =
     (let s1 = s0\<lparr>isLoading := True, error := None\<rparr>;
          s2 = (if \<not> codeReaderRef s1 then emit [ReaderCreate] (s1\<lparr>codeReaderRef := True\<rparr>)
                else s1)
      in case permission env of
           Rejected _ \<Rightarrow>
             (Some (Error ''Camera permission denied. Please allow camera access and try again.''),
              emit [GetUserMedia PermissionProbe] s2)
         | Granted n \<Rightarrow>
             let s3 = stopTracks (length (streams s2)) (openStream PermissionProbe n s2);
                 s4 = emit [ListVideoInputDevices] s3
             in (case listing env of
                   ListingFailed e \<Rightarrow> (Some e, s4)
                 | Listed devices \<Rightarrow>
                     if length devices = 0 then
                       (Some (Error ''No camera devices found. Please connect a camera and refresh the page.''),
                        s4)
                     else
                       (None,
                        s4\<lparr>availableCameras := cameraList devices,
                           selectedCameraId := deviceId (preferredCamera (cameraList devices))\<rparr>)))"

text \<open>
  The whole function, run from its call to its end with nothing handled in between:
  the \<open>try\<close> block, the \<open>catch\<close> of lines 127 to 130, the \<open>finally\<close> of line 132.
  The function as it runs between its waits follows further down.
\<close>

definition loadCameras :: "load_env \<Rightarrow> app \<Rightarrow> app" where
  "loadCameras env s0 =
     (let caught =
            (case loadCamerasTry env s0 of
               (None, s) \<Rightarrow> s
             | (Some e, s) \<Rightarrow>
                 emit [ConsoleError [''Camera detection error:'', errorMessage [] e]]
                   (s\<lparr>error := Some (errorMessage ''Failed to detect cameras'' e)\<rparr>))
      in caught\<lparr>isLoading := False\<rparr>)"

section \<open>startScanning (App.tsx, lines 136 to 298)\<close>

text \<open>
  What \<open>startScanning\<close> meets outside: the outcome of the \<open>loadCameras\<close> call of
  line 146, of the \<open>getUserMedia\<close> call of line 170, whether the first video track
  has \<open>getCapabilities\<close> and reports the focus mode \<open>continuous\<close> (lines 174 to
  176, taken not to throw), whether \<open>applyConstraints\<close> resolves (line 178), and
  the outcome of the fallback \<open>getUserMedia\<close> call of line 188.
\<close>

record start_env =
  reload :: load_env
  fullStream :: media_outcome
  continuousFocus :: bool
  applyConstraintsOk :: bool
  fallbackStream :: media_outcome

text \<open>
  Lines 168 to 192: the stream is requested with the full constraints and, when that
  request rejects, with the fallback constraints; the stream obtained becomes the
  video element's \<open>srcObject\<close>. Nothing here looks at the previous \<open>srcObject\<close>.
  A rejected fallback request leaves the \<open>try\<close> block of \<open>startScanning\<close>.
\<close>

definition acquire :: "start_env \<Rightarrow> string \<Rightarrow> app \<Rightarrow> exn option \<times> app" where
  "acquire env dev s =
     (case fullStream env of
        Granted n \<Rightarrow>
          let i = length (streams s);
              s1 = openStream (FullConstraints dev) n s;
              s2 = (if 0 < n \<and> continuousFocus env then
                      (if applyConstraintsOk env then emit [ApplyConstraints i] s1
                       else emit [ApplyConstraints i,
                                  ConsoleLog [''Autofocus not available on this device'']] s1)
                    else s1)
          in (None, s2\<lparr>srcObject := Some i\<rparr>)
      | Rejected _ \<Rightarrow>
          let s1 = emit [GetUserMedia (FullConstraints dev)] s in
          (case fallbackStream env of
             Granted n \<Rightarrow>
               (None, (openStream (FallbackConstraints dev) n s1)\<lparr>srcObject := Some (length (streams s1))\<rparr>)
           | Rejected e \<Rightarrow> (Some e, emit [GetUserMedia (FallbackConstraints dev)] s1)))"

text \<open>The \<open>catch\<close> block of lines 291 to 297.\<close>

definition catchStart :: "exn \<Rightarrow> app \<Rightarrow> app" where
  "catchStart e s =
     emit [ConsoleError [''Start scanning error:'', errorMessage [] e]]
       (s\<lparr>error := Some (errorMessage ''Failed to start camera'' e),
          isScanning := False,
          scanStatus := []\<rparr>)"

text \<open>
  \<open>startScanning\<close> is a closure of the render whose button was clicked: the
  \<open>availableCameras\<close>, \<open>selectedCameraId\<close> and \<open>scannedCodes\<close> it reads are those
  of the state \<open>s0\<close> it is called in, also after the \<open>await loadCameras()\<close> of line
  146 (so the test of line 147 repeats the test of line 145), and also inside the
  decode callback it registers. This is the function run from its call to its end
  with nothing handled in between, the browser's answers being those of the
  environment; the function as it runs between its waits (lines 146, 170, 178, 188,
  199) follows further down. The wait for the video's metadata (lines 199 to 214)
  resolves on every path and changes nothing of the state modelled.
\<close>

definition startScanning :: "start_env \<Rightarrow> app \<Rightarrow> app" where
  "startScanning env s0 =
     (if \<not> codeReaderRef s0 \<or> \<not> videoRef s0 then s0
      else
        let s1 = s0\<lparr>error := None, isScanning := True, scanStatus := ''Starting camera...''\<rparr> in
        if length (availableCameras s0) = 0 then
          catchStart (Error ''No cameras available. Please check your camera connection.'')
            (loadCameras (reload env) s1)
        else
          let dev = (if selectedCameraId s0 \<noteq> [] then selectedCameraId s0
                     else deviceId (availableCameras s0 ! 0))
          in if dev = [] then catchStart (Error ''No camera device selected'') s1
             else
               (case acquire env dev s1 of
                  (Some e, s2) \<Rightarrow> catchStart e s2
                | (None, s2) \<Rightarrow>
                    let s3 = s2\<lparr>scanStatus := ''Ready - Point camera at barcode''\<rparr>;
                        s4 = emit [DecodeFromVideoDevice dev]
                               (s3\<lparr>decoding :=
                                     Some \<lparr>closed_scannedCodes = scannedCodes s0,
                                           lastScanTime = 0,
                                           scanAttempts = 0\<rparr>\<rparr>)
                    in emit [ConsoleLog [''Barcode scanning started with device:'', dev],
                             ConsoleLog [''Video dimensions:'']] s4))"

section \<open>The decode callback (App.tsx, lines 228 to 285)\<close>

text \<open>
  The reader calls the callback with a result, an error, both or neither. Of a result
  the callback reads \<open>getText()\<close> and \<open>getBarcodeFormat()\<close>, of an error its
  \<open>name\<close>, which may be undefined.
\<close>

datatype zx_result = Result (getText: string) (getBarcodeFormat: string)

datatype zx_error = DecodeError (errorName: "string option")

text \<open>
  What one invocation reads from the clock and the random number generator:
  \<open>Date.now()\<close> at line 232 and again at line 249, the fragment
  \<open>Math.random().toString(36).substr(2, 9)\<close> of line 249, and \<open>new Date()\<close> at
  line 251.
\<close>

record reading =
  now :: nat
  idNow :: nat
  random36 :: string
  stamp :: nat

definition scanCooldown :: int where
  "scanCooldown = 1500"

text \<open>Line 249.\<close>

definition newId :: "reading \<Rightarrow> string" where
  "newId k = toString (idNow k) @ random36 k"

text \<open>Lines 271 to 284.\<close>

definition errorBranch :: "zx_error option \<Rightarrow> closure \<times> app \<Rightarrow> closure \<times> app" where
  "errorBranch err cs =
     (case err of
        None \<Rightarrow> cs
      | Some e \<Rightarrow>
          (case errorName e of
             None \<Rightarrow> cs
           | Some n \<Rightarrow>
               if n \<noteq> [] \<and>
                  \<not> includes_str n ''NotFoundError'' \<and>
                  \<not> includes_str n ''No QR Code'' \<and>
                  \<not> includes_str n ''NotFoundException'' \<and>
                  \<not> includes_str n ''No MultiFormat Readers''
               then
                 (if scanAttempts (fst cs) mod 50 = 0 then
                    (fst cs,
                     emit [ConsoleLog [''Scan attempt'', toString (scanAttempts (fst cs)), '':'', n]]
                       (snd cs))
                  else cs)
               else cs))"

text \<open>
  The decode conditions the callback treats as "not found": those whose name contains
  one of the four markers of lines 275 to 278.
\<close>

definition notFound :: "zx_error \<Rightarrow> bool" where
  "notFound e =
     (case errorName e of
        None \<Rightarrow> False
      | Some n \<Rightarrow>
          includes_str n ''NotFoundError'' \<or> includes_str n ''No QR Code'' \<or>
          includes_str n ''NotFoundException'' \<or> includes_str n ''No MultiFormat Readers'')"

text \<open>
  The callback on its closure and the component's state. The \<open>return\<close> of line 237
  leaves the whole callback. Both duplicate tests (lines 236 and 245) read the
  \<open>scannedCodes\<close> of the closure; the append of line 253 is a functional update of
  the state's list.
\<close>

definition decodeCallback ::
  "zx_result option \<Rightarrow> zx_error option \<Rightarrow> reading \<Rightarrow> closure \<times> app \<Rightarrow> closure \<times> app" where
  "decodeCallback result err k cs =
     (let c0 = (fst cs)\<lparr>scanAttempts := scanAttempts (fst cs) + 1\<rparr>;
          s0 = snd cs
      in case result of
           None \<Rightarrow> errorBranch err (c0, s0)
         | Some r \<Rightarrow>
             if int (now k) - int (lastScanTime c0) < scanCooldown \<and>
                list_ex (\<lambda>code. text_code code = getText r) (closed_scannedCodes c0)
             then (c0, s0)
             else
               let c1 = c0\<lparr>lastScanTime := now k\<rparr>;
                   s1 = emit [ConsoleLog [''Barcode detected:'', getText r,
                                          ''Format:'', getBarcodeFormat r]] s0;
                   s2 = s1\<lparr>scanStatus := ''Barcode detected!''\<rparr>;
                   isDuplicate =
                     list_ex (\<lambda>code. text_code code = getText r) (closed_scannedCodes c1)
               in if \<not> isDuplicate then
                    let newCode = \<lparr>id_code = newId k, text_code = getText r, timestamp = stamp k\<rparr>;
                        s3 = s2\<lparr>scannedCodes := scannedCodes s2 @ [newCode]\<rparr>;
                        s4 = s3\<lparr>border := ''4px solid #4caf50'', boxShadow := ''0 0 20px #4caf50''\<rparr>;
                        s5 = s4\<lparr>timers := timers s4 @ [(800, RevertAccepted)]\<rparr>
                    in errorBranch err (c1, s5)
                  else
                    let s3 = s2\<lparr>scanStatus := ''Already scanned''\<rparr>;
                        s4 = s3\<lparr>timers := timers s3 @ [(800, RevertDuplicate)]\<rparr>
                    in errorBranch err (c1, s4))"

text \<open>
  The reader invokes the callback registered by \<open>decodeFromVideoDevice\<close>, if one is
  registered; the closure's variables keep their new values.
\<close>

definition deliver :: "zx_result option \<Rightarrow> zx_error option \<Rightarrow> reading \<Rightarrow> app \<Rightarrow> app" where
  "deliver result err k s =
     (case decoding s of
        None \<Rightarrow> s
      | Some c \<Rightarrow>
          (case decodeCallback result err k (c, s) of
             (c', s') \<Rightarrow> s'\<lparr>decoding := Some c'\<rparr>))"

text \<open>The timeout callbacks of lines 258 to 262 and 265 to 267.\<close>

definition runTimer :: "timer_action \<Rightarrow> app \<Rightarrow> app" where
  "runTimer a s =
     (case a of
        RevertAccepted \<Rightarrow>
          s\<lparr>border := ''none'', boxShadow := ''none'',
            scanStatus := ''Ready - Point camera at barcode''\<rparr>
      | RevertDuplicate \<Rightarrow> s\<lparr>scanStatus := ''Ready - Point camera at barcode''\<rparr>)"

definition fireTimer :: "nat \<Rightarrow> app \<Rightarrow> app" where
  "fireTimer i s =
     (if i < length (timers s) then
        runTimer (snd (timers s ! i)) (s\<lparr>timers := take i (timers s) @ drop (Suc i) (timers s)\<rparr>)
      else s)"

section \<open>stopScanning (App.tsx, lines 300 to 314)\<close>

text \<open>
  \<open>reset()\<close> is the reader's: it returns, having cancelled the continuous decoding it
  was asked for, or it throws. \<open>stopScanning\<close> has no \<open>try\<close>, so an exception of
  \<open>reset()\<close> leaves the function at line 302. The reader is a library outside the
  component's sources: of \<open>decodeFromVideoDevice\<close> the model keeps the registration
  of the callback, of \<open>reset()\<close> the cancellation; a stream the reader may open for
  itself is not part of the model.
\<close>

datatype reset_outcome = ResetReturns | ResetThrows exn

definition stopScanning :: "reset_outcome \<Rightarrow> app \<Rightarrow> exn option \<times> app" where
  "stopScanning r s0 =
     (case (if codeReaderRef s0 then
              (case r of
                 ResetReturns \<Rightarrow> (None, emit [ReaderReset] (s0\<lparr>decoding := None\<rparr>))
               | ResetThrows e \<Rightarrow> (Some e, emit [ReaderReset] s0))
            else (None, s0)) of
        (Some e, s1) \<Rightarrow> (Some e, s1)
      | (None, s1) \<Rightarrow>
          let s2 = (case (if videoRef s1 then srcObject s1 else None) of
                      Some i \<Rightarrow> (stopTracks i s1)\<lparr>srcObject := None\<rparr>
                    | None \<Rightarrow> s1)
          in (None, s2\<lparr>isScanning := False, scanStatus := []\<rparr>))"

section \<open>loadCameras and startScanning between their waits\<close>

text \<open>
  What the browser answers when a wait ends: the outcome of a \<open>getUserMedia\<close>
  request together with whether the first video track of the stream reports the
  focus mode \<open>continuous\<close> (read at lines 174 to 176 only), the outcome of
  \<open>listVideoInputDevices\<close>, whether \<open>applyConstraints\<close> resolved, or the video
  element reporting its metadata (or the timeout of line 209 falling due).
\<close>

datatype resolution =
    Media media_outcome bool
  | Devices listing_outcome
  | Applied bool
  | VideoReady

text \<open>A stream handed out by \<open>getUserMedia\<close>: all its tracks are live.\<close>

definition addStream :: "nat \<Rightarrow> app \<Rightarrow> app" where
  "addStream n s = s\<lparr>streams := streams s @ [replicate n True]\<rparr>"

text \<open>
  \<open>loadCameras\<close> from its call to the \<open>await\<close> of line 92: lines 59 to 81, and the
  request of line 92 is made.
\<close>

definition loadCamerasBegin :: "app \<Rightarrow> app" where
  "loadCamerasBegin s0 =
     (let s1 = s0\<lparr>isLoading := True, error := None\<rparr>;
          s2 = (if \<not> codeReaderRef s1 then emit [ReaderCreate] (s1\<lparr>codeReaderRef := True\<rparr>)
                else s1)
      in emit [GetUserMedia PermissionProbe] s2)"

text \<open>
  The end of \<open>loadCameras\<close>: the \<open>catch\<close> of lines 127 to 130 for what the \<open>try\<close>
  block threw, if anything, and the \<open>finally\<close> of line 132.
\<close>

definition loadCamerasEnd :: "exn option \<Rightarrow> app \<Rightarrow> app" where
  "loadCamerasEnd thrown s =
     (let caught =
            (case thrown of
               None \<Rightarrow> s
             | Some e \<Rightarrow>
                 emit [ConsoleError [''Camera detection error:'', errorMessage [] e]]
                   (s\<lparr>error := Some (errorMessage ''Failed to detect cameras'' e)\<rparr>))
      in caught\<lparr>isLoading := False\<rparr>)"

text \<open>
  From the answer to the permission probe to the \<open>await\<close> of line 99, or to the end
  when the probe was rejected: the probe's stream is stopped at once (line 94), and
  the device list is requested.
\<close>

definition loadCamerasPermission :: "media_outcome \<Rightarrow> app \<Rightarrow> load_stage option \<times> app" where
  "loadCamerasPermission outcome s =
     (case outcome of
        Rejected _ \<Rightarrow>
          (None,
           loadCamerasEnd
             (Some (Error ''Camera permission denied. Please allow camera access and try again.'')) s)
      | Granted n \<Rightarrow>
          (Some AwaitListing,
           emit [ListVideoInputDevices] (stopTracks (length (streams s)) (addStream n s))))"

text \<open>From the device list to the end: lines 99 to 133.\<close>

definition loadCamerasListing :: "listing_outcome \<Rightarrow> app \<Rightarrow> app" where
  "loadCamerasListing outcome s =
     (case outcome of
        ListingFailed e \<Rightarrow> loadCamerasEnd (Some e) s
      | Listed devices \<Rightarrow>
          if length devices = 0 then
            loadCamerasEnd
              (Some (Error ''No camera devices found. Please connect a camera and refresh the page.'')) s
          else
            loadCamerasEnd None
              (s\<lparr>availableCameras := cameraList devices,
                 selectedCameraId := deviceId (preferredCamera (cameraList devices))\<rparr>))"

text \<open>A suspended \<open>loadCameras\<close> resumed with an answer; an answer of the wrong kind is none.\<close>

definition resumeLoad :: "load_stage \<Rightarrow> resolution \<Rightarrow> app \<Rightarrow> load_stage option \<times> app" where
  "resumeLoad stage r s =
     (case stage of
        AwaitPermission \<Rightarrow>
          (case r of Media outcome focus \<Rightarrow> loadCamerasPermission outcome s | _ \<Rightarrow> (Some stage, s))
      | AwaitListing \<Rightarrow>
          (case r of Devices outcome \<Rightarrow> (None, loadCamerasListing outcome s) | _ \<Rightarrow> (Some stage, s)))"

definition answersLoad :: "load_stage \<Rightarrow> resolution \<Rightarrow> bool" where
  "answersLoad stage r =
     (case stage of
        AwaitPermission \<Rightarrow> (case r of Media outcome focus \<Rightarrow> True | _ \<Rightarrow> False)
      | AwaitListing \<Rightarrow> (case r of Devices outcome \<Rightarrow> True | _ \<Rightarrow> False))"

text \<open>
  \<open>startScanning\<close> from its call to its first \<open>await\<close> (or to its end, when it
  returns at line 137 or throws at line 155): \<open>isScanning\<close> is set at line 141, before
  any wait; then either \<open>loadCameras\<close> is called (line 146) and runs to its own first
  wait, or the stream is requested with the full constraints (line 170).
\<close>

definition startScanningBegin :: "app \<Rightarrow> start_stage option \<times> app" where
  "startScanningBegin s0 =
     (if \<not> codeReaderRef s0 \<or> \<not> videoRef s0 then (None, s0)
      else
        let s1 = s0\<lparr>error := None, isScanning := True, scanStatus := ''Starting camera...''\<rparr> in
        if length (availableCameras s0) = 0 then
          (Some (AwaitReload AwaitPermission), loadCamerasBegin s1)
        else
          let dev = (if selectedCameraId s0 \<noteq> [] then selectedCameraId s0
                     else deviceId (availableCameras s0 ! 0))
          in if dev = [] then (None, catchStart (Error ''No camera device selected'') s1)
             else (Some (AwaitFullStream dev), emit [GetUserMedia (FullConstraints dev)] s1))"

text \<open>Lines 216 to 290: the status, the registration of the decode callback, the two log lines.\<close>

definition beginDecoding :: "string \<Rightarrow> ScannedCode list \<Rightarrow> app \<Rightarrow> app" where
  "beginDecoding dev codes s =
     (let s3 = s\<lparr>scanStatus := ''Ready - Point camera at barcode''\<rparr>;
          s4 = emit [DecodeFromVideoDevice dev]
                 (s3\<lparr>decoding :=
                       Some \<lparr>closed_scannedCodes = codes, lastScanTime = 0, scanAttempts = 0\<rparr>\<rparr>)
      in emit [ConsoleLog [''Barcode scanning started with device:'', dev],
               ConsoleLog [''Video dimensions:'']] s4)"

text \<open>
  A suspended \<open>startScanning\<close> resumed with an answer, up to its next wait or its end.
  \<open>codes\<close> is the \<open>scannedCodes\<close> of the render the function was called in. Nothing
  here reads \<open>isScanning\<close> or the previous \<open>srcObject\<close>: the function goes on as if
  nothing had happened since it was called. After its \<open>loadCameras\<close> call the test of
  line 147 reads the camera list of the calling render, which was empty, and throws.
  A stream obtained with the full constraints is bound at line 185, after the wait
  for \<open>applyConstraints\<close> if there is one; an answer of the wrong kind is none.
\<close>

definition startScanningResume ::
  "start_stage \<Rightarrow> ScannedCode list \<Rightarrow> resolution \<Rightarrow> app \<Rightarrow> start_stage option \<times> app" where
  "startScanningResume stage codes r s =
     (case stage of
        AwaitReload l \<Rightarrow>
          (case l of
             AwaitPermission \<Rightarrow>
               (case r of
                  Media outcome focus \<Rightarrow>
                    (case loadCamerasPermission outcome s of
                       (Some l', s1) \<Rightarrow> (Some (AwaitReload l'), s1)
                     | (None, s1) \<Rightarrow>
                         (None,
                          catchStart
                            (Error ''No cameras available. Please check your camera connection.'') s1))
                | _ \<Rightarrow> (Some stage, s))
           | AwaitListing \<Rightarrow>
               (case r of
                  Devices outcome \<Rightarrow>
                    (None,
                     catchStart (Error ''No cameras available. Please check your camera connection.'')
                       (loadCamerasListing outcome s))
                | _ \<Rightarrow> (Some stage, s)))
      | AwaitFullStream dev \<Rightarrow>
          (case r of
             Media outcome focus \<Rightarrow>
               (case outcome of
                  Granted n \<Rightarrow>
                    let i = length (streams s);
                        s1 = addStream n s
                    in if 0 < n \<and> focus then
                         (Some (AwaitApplyConstraints dev i), emit [ApplyConstraints i] s1)
                       else (Some (AwaitVideoReady dev), s1\<lparr>srcObject := Some i\<rparr>)
                | Rejected e \<Rightarrow>
                    (Some (AwaitFallbackStream dev), emit [GetUserMedia (FallbackConstraints dev)] s))
           | _ \<Rightarrow> (Some stage, s))
      | AwaitApplyConstraints dev i \<Rightarrow>
          (case r of
             Applied ok \<Rightarrow>
               (Some (AwaitVideoReady dev),
                (if ok then s else emit [ConsoleLog [''Autofocus not available on this device'']] s)
                  \<lparr>srcObject := Some i\<rparr>)
           | _ \<Rightarrow> (Some stage, s))
      | AwaitFallbackStream dev \<Rightarrow>
          (case r of
             Media outcome focus \<Rightarrow>
               (case outcome of
                  Granted n \<Rightarrow>
                    (Some (AwaitVideoReady dev),
                     (addStream n s)\<lparr>srcObject := Some (length (streams s))\<rparr>)
                | Rejected e \<Rightarrow> (None, catchStart e s))
           | _ \<Rightarrow> (Some stage, s))
      | AwaitVideoReady dev \<Rightarrow>
          (case r of
             VideoReady \<Rightarrow> (None, beginDecoding dev codes s)
           | _ \<Rightarrow> (Some stage, s)))"

definition answersStart :: "start_stage \<Rightarrow> resolution \<Rightarrow> bool" where
  "answersStart stage r =
     (case stage of
        AwaitReload l \<Rightarrow> answersLoad l r
      | AwaitFullStream dev \<Rightarrow> (case r of Media outcome focus \<Rightarrow> True | _ \<Rightarrow> False)
      | AwaitApplyConstraints dev i \<Rightarrow> (case r of Applied ok \<Rightarrow> True | _ \<Rightarrow> False)
      | AwaitFallbackStream dev \<Rightarrow> (case r of Media outcome focus \<Rightarrow> True | _ \<Rightarrow> False)
      | AwaitVideoReady dev \<Rightarrow> (case r of VideoReady \<Rightarrow> True | _ \<Rightarrow> False))"

text \<open>
  The answers of an environment of \<open>startScanning\<close>, and the function resumed with
  them: \<open>startScanning env\<close> above is \<open>startScanningBegin\<close> followed by the (at most
  three) resumptions that these answers lead through, as is proved below.
\<close>

fun answer :: "start_env \<Rightarrow> start_stage \<Rightarrow> resolution" where
  "answer env (AwaitReload AwaitPermission) = Media (permission (reload env)) False"
| "answer env (AwaitReload AwaitListing) = Devices (listing (reload env))"
| "answer env (AwaitFullStream dev) = Media (fullStream env) (continuousFocus env)"
| "answer env (AwaitApplyConstraints dev i) = Applied (applyConstraintsOk env)"
| "answer env (AwaitFallbackStream dev) = Media (fallbackStream env) False"
| "answer env (AwaitVideoReady dev) = VideoReady"

definition settle ::
  "start_env \<Rightarrow> ScannedCode list \<Rightarrow> start_stage option \<times> app \<Rightarrow> start_stage option \<times> app" where
  "settle env codes p =
     (case p of
        (None, s) \<Rightarrow> (None, s)
      | (Some stage, s) \<Rightarrow> startScanningResume stage codes (answer env stage) s)"

section \<open>The mounted component and its controls (App.tsx, lines 27 to 55 and 350 to 469)\<close>

text \<open>
  The state of the first render, before its effect has run: the \<open>useState\<close>
  defaults of lines 17 to 23, the video element committed, no reader yet.
\<close>

definition initial :: app where
  "initial =
     \<lparr>scannedCodes = [], isScanning = False, error = None, availableCameras = [],
      selectedCameraId = [], isLoading = False, scanStatus = [],
      codeReaderRef = False, videoRef = True, srcObject = None,
      border = [], boxShadow = [], streams = [], decoding = None, timers = [], effects = [],
      pendingLoads = [], pendingStarts = []\<rparr>"


definition mount :: "load_env \<Rightarrow> app \<Rightarrow> app" where
  "mount env s = loadCameras env (emit [ReaderCreate] (s\<lparr>codeReaderRef := True\<rparr>))"

text \<open>
  What can happen to the mounted component: a click on one of the controls the JSX
  renders, a choice in the camera selector, a call of the decode callback by the
  reader, a timeout falling due, and the browser answering a suspended
  \<open>loadCameras\<close> or \<open>startScanning\<close>. A click on Refresh or Start comes in two forms:
  \<open>BeginRefresh\<close> and \<open>BeginStart\<close> run the handler to its first wait and leave it
  suspended, to be resumed by \<open>ResumeLoad\<close> and \<open>ResumeStart\<close> while other things
  happen in between; \<open>RefreshCameras env\<close> and \<open>StartScanning env\<close> are the click
  with all the browser's answers arriving before anything else is handled.
\<close>

datatype action =
    RefreshCameras load_env
  | SelectCamera string
  | StartScanning start_env
  | StopScanning reset_outcome
  | CopyAll copy_env
  | ClearAll
  | RemoveCode string
  | Decode "zx_result option" "zx_error option" reading
  | Timeout nat
  | BeginRefresh
  | BeginStart
  | ResumeLoad nat resolution
  | ResumeStart nat resolution

text \<open>
  When the JSX offers a control: Start is rendered while \<open>isScanning\<close> is false and is
  disabled while loading or without cameras (lines 399 to 407); Refresh is rendered
  beside it while there are no cameras (lines 408 to 412); Stop is rendered while
  \<open>isScanning\<close> is true (lines 414 to 418); the selector is rendered for more than one
  camera while not scanning and offers the cameras' ids (lines 380 to 396); Copy All
  and Clear All are rendered for a non-empty list (lines 429 to 438); a Remove button
  is rendered for each record (lines 455 to 461). The reader only calls a callback it
  holds, only a pending timeout falls due, and the browser answers a suspended call
  with an answer to what it waits for.
\<close>

fun offered :: "app \<Rightarrow> action \<Rightarrow> bool" where
  "offered s (RefreshCameras env) = (\<not> isScanning s \<and> length (availableCameras s) = 0)"
| "offered s (SelectCamera v) =
     (length (availableCameras s) > 1 \<and> \<not> isScanning s \<and> v \<in> set (map deviceId (availableCameras s)))"
| "offered s (StartScanning env) =
     (\<not> isScanning s \<and> \<not> (isLoading s \<or> length (availableCameras s) = 0))"
| "offered s (StopScanning r) = isScanning s"
| "offered s (CopyAll env) = (length (scannedCodes s) > 0)"
| "offered s ClearAll = (length (scannedCodes s) > 0)"
| "offered s (RemoveCode i) = (i \<in> set (map id_code (scannedCodes s)))"
| "offered s (Decode result err k) = (decoding s \<noteq> None)"
| "offered s (Timeout i) = (i < length (timers s))"
| "offered s BeginRefresh = (\<not> isScanning s \<and> length (availableCameras s) = 0)"
| "offered s BeginStart =
     (\<not> isScanning s \<and> \<not> (isLoading s \<or> length (availableCameras s) = 0))"
| "offered s (ResumeLoad i r) =
     (i < length (pendingLoads s) \<and> answersLoad (pendingLoads s ! i) r)"
| "offered s (ResumeStart i r) =
     (i < length (pendingStarts s) \<and> answersStart (fst (pendingStarts s ! i)) r)"

text \<open>
  A suspended call resumed: it stays in its place with its new wait, or is gone when
  it has ended.
\<close>

definition resumeLoadAt :: "nat \<Rightarrow> resolution \<Rightarrow> app \<Rightarrow> app" where
  "resumeLoadAt i r s =
     (if i < length (pendingLoads s) then
        (case resumeLoad (pendingLoads s ! i) r s of
           (Some l, s1) \<Rightarrow> s1\<lparr>pendingLoads := (pendingLoads s)[i := l]\<rparr>
         | (None, s1) \<Rightarrow> s1\<lparr>pendingLoads := take i (pendingLoads s) @ drop (Suc i) (pendingLoads s)\<rparr>)
      else s)"

definition resumeStartAt :: "nat \<Rightarrow> resolution \<Rightarrow> app \<Rightarrow> app" where
  "resumeStartAt i r s =
     (if i < length (pendingStarts s) then
        (case startScanningResume (fst (pendingStarts s ! i)) (snd (pendingStarts s ! i)) r s of
           (Some st, s1) \<Rightarrow>
             s1\<lparr>pendingStarts := (pendingStarts s)[i := (st, snd (pendingStarts s ! i))]\<rparr>
         | (None, s1) \<Rightarrow>
             s1\<lparr>pendingStarts := take i (pendingStarts s) @ drop (Suc i) (pendingStarts s)\<rparr>)
      else s)"

definition beginRefresh :: "app \<Rightarrow> app" where
  "beginRefresh s = (loadCamerasBegin s)\<lparr>pendingLoads := pendingLoads s @ [AwaitPermission]\<rparr>"

definition beginStart :: "app \<Rightarrow> app" where
  "beginStart s =
     (case startScanningBegin s of
        (Some st, s1) \<Rightarrow> s1\<lparr>pendingStarts := pendingStarts s @ [(st, scannedCodes s)]\<rparr>
      | (None, s1) \<Rightarrow> s1)"

fun perform :: "action \<Rightarrow> app \<Rightarrow> app" where
  "perform (RefreshCameras env) s = loadCameras env s"
| "perform (SelectCamera v) s = s\<lparr>selectedCameraId := v\<rparr>"
| "perform (StartScanning env) s = startScanning env s"
| "perform (StopScanning r) s = snd (stopScanning r s)"
| "perform (CopyAll env) s = copyAll env s"
| "perform ClearAll s = clearAll s"
| "perform (RemoveCode i) s = removeCode i s"
| "perform (Decode result err k) s = deliver result err k s"
| "perform (Timeout i) s = fireTimer i s"
| "perform BeginRefresh s = beginRefresh s"
| "perform BeginStart s = beginStart s"
| "perform (ResumeLoad i r) s = resumeLoadAt i r s"
| "perform (ResumeStart i r) s = resumeStartAt i r s"

text \<open>
  A sequence of happenings, each offered in the state it meets. Between a \<open>BeginStart\<close>
  or \<open>BeginRefresh\<close> and the resumptions of the suspended call anything that is
  offered may happen, a click on Stop or on Start included.
\<close>

fun run :: "action list \<Rightarrow> app \<Rightarrow> app option" where
  "run [] s = Some s"
| "run (a # as) s = (if offered s a then run as (perform a s) else None)"


section \<open>Ownership of camera streams\<close>

text \<open>
  The part of the state that decides which streams are live and which one the
  component can still reach: the streams, the video element and its \<open>srcObject\<close>,
  and \<open>isScanning\<close>.
\<close>

definition camera :: "app \<Rightarrow> bool list list \<times> nat option \<times> bool \<times> bool" where
  "camera s = (streams s, srcObject s, isScanning s, videoRef s)"




section \<open>A concrete session\<close>

text \<open>
  Inputs for the concrete runs below: a browser that grants the camera and lists a
  front and a back camera, a start that gets its stream at the first request, clock
  and random readings of one callback invocation, and a decoded QR code.
\<close>

definition twoCameras :: load_env where
  "twoCameras =
     \<lparr>permission = Granted 1,
      listing = Listed [\<lparr>deviceId = ''d1'', label = ''Front Camera''\<rparr>,
                        \<lparr>deviceId = ''d2'', label = ''Back Camera''\<rparr>]\<rparr>"

definition granted :: start_env where
  "granted =
     \<lparr>reload = twoCameras, fullStream = Granted 1, continuousFocus = False,
      applyConstraintsOk = True, fallbackStream = Granted 1\<rparr>"

definition reading_at :: "nat \<Rightarrow> reading" where
  "reading_at t = \<lparr>now = t, idNow = t, random36 = ''k3j9x0q2a'', stamp = t\<rparr>"

definition found :: "string \<Rightarrow> zx_result option" where
  "found payload = Some (Result payload ''QR_CODE'')"

definition mounted :: app where
  "mounted = mount twoCameras initial"

definition scanning :: app where
  "scanning = startScanning granted mounted"

definition stopped :: app where
  "stopped = snd (stopScanning ResetReturns scanning)"

definition restarted :: app where
  "restarted = startScanning granted stopped"






section \<open>Decimal rendering\<close>

lemma toString_small: "n < 10 \<Longrightarrow> toString n = [digit n]"
  by (subst toString.simps) simp

lemma toString_numeral:
  "toString (numeral k) =
     (if (numeral k :: nat) < 10 then [digit (numeral k)]
      else toString (numeral k div 10) @ [digit (numeral k mod 10)])"
  by (rule toString.simps)

lemma toString_nonempty: "toString n \<noteq> []"
  by (subst toString.simps) simp

lemma digit_inj:
  assumes "a < 10" and "b < 10" and "digit a = digit b"
  shows "a = b"
proof -
  have "distinct ''0123456789''"
    by simp
  moreover have "a < length ''0123456789''" and "b < length ''0123456789''"
    using assms by simp_all
  ultimately show ?thesis
    using assms(3) unfolding digit_def by (simp only: nth_eq_iff_index_eq)
qed

lemma toString_inj: "toString a = toString b \<Longrightarrow> a = b"
proof (induction a arbitrary: b rule: toString.induct)
  case (1 n)
  show ?case
  proof (cases "n < 10")
    case small: True
    show ?thesis
    proof (cases "b < 10")
      case True
      with small "1.prems" show ?thesis
        by (simp add: toString_small digit_inj)
    next
      case False
      then have "toString b = toString (b div 10) @ [digit (b mod 10)]"
        by (subst toString.simps) simp
      with small "1.prems" toString_nonempty [of "b div 10"] show ?thesis
        by (simp add: toString_small)
    qed
  next
    case large: False
    then have n: "toString n = toString (n div 10) @ [digit (n mod 10)]"
      by (subst toString.simps) simp
    show ?thesis
    proof (cases "b < 10")
      case True
      with n "1.prems" toString_nonempty [of "n div 10"] show ?thesis
        by (simp add: toString_small)
    next
      case False
      then have "toString b = toString (b div 10) @ [digit (b mod 10)]"
        by (subst toString.simps) simp
      with n "1.prems" have "toString (n div 10) = toString (b div 10)"
        and "digit (n mod 10) = digit (b mod 10)"
        by simp_all
      with large "1.IH" have "n div 10 = b div 10" and "n mod 10 = b mod 10"
        by (simp_all add: digit_inj)
      then show ?thesis
        by (metis div_mult_mod_eq)
    qed
  qed
qed

section \<open>Export format and the empty list\<close>

lemma split_str_plain: "d \<notin> set x \<Longrightarrow> split_str d x = [x]"
  by (induction x) auto

lemma split_str_field: "d \<notin> set x \<Longrightarrow> split_str d (x @ d # rest) = x # split_str d rest"
  by (induction x) auto

lemma split_join:
  "xs \<noteq> [] \<Longrightarrow> \<forall>x\<in>set xs. d \<notin> set x \<Longrightarrow> split_str d (join_str [d] xs) = xs"
proof (induction "[d]" xs rule: join_str.induct)
  case 1
  then show ?case by simp
next
  case (2 x)
  then show ?case by (simp add: split_str_plain)
next
  case (3 x y ys)
  then show ?case by (simp add: split_str_field)
qed

lemma join_terminated: "join_str [d] xs = butlast (concat (map (\<lambda>x. x @ [d]) xs))"
proof (induction "[d]" xs rule: join_str.induct)
  case 1
  then show ?case by simp
next
  case (2 x)
  then show ?case by simp
next
  case (3 x y ys)
  then show ?case by (simp add: butlast_append)
qed

lemma copyAll_writes_allText:
  assumes "scannedCodes s \<noteq> []"
  shows "\<exists>rest. effects (copyAll env s)
                  = effects s @ ClipboardWriteText (allText (scannedCodes s)) # rest"
  using assms by (simp add: copyAll_def emit_def Let_def)

text \<open>
  Claim C5. The text \<open>copyAll\<close> computes (line 319) is the records' texts in list
  order, each followed by a newline, without the last newline; when no text contains
  a newline itself, splitting the export at the newlines gives back exactly the
  texts, in order; for a non-empty list this text is what \<open>copyAll\<close> hands to the
  clipboard; and for the texts A1, B2, C3 it is A1, newline, B2, newline, C3.
\<close>

theorem copyAll_export_format:
  "allText codes = butlast (concat (map (\<lambda>code. text_code code @ newline) codes)) \<and>
   (codes \<noteq> [] \<and> (\<forall>code\<in>set codes. CHR 0x0A \<notin> set (text_code code))
      \<longrightarrow> split_str (CHR 0x0A) (allText codes) = map text_code codes) \<and>
   (scannedCodes s \<noteq> []
      \<longrightarrow> (\<exists>rest. effects (copyAll env s)
                    = effects s @ ClipboardWriteText (allText (scannedCodes s)) # rest)) \<and>
   allText [\<lparr>id_code = i1, text_code = ''A1'', timestamp = t1\<rparr>,
            \<lparr>id_code = i2, text_code = ''B2'', timestamp = t2\<rparr>,
            \<lparr>id_code = i3, text_code = ''C3'', timestamp = t3\<rparr>]
     = ''A1'' @ [CHR 0x0A] @ ''B2'' @ [CHR 0x0A] @ ''C3''"
proof (intro conjI impI)
  show "allText codes = butlast (concat (map (\<lambda>code. text_code code @ newline) codes))"
    by (simp add: allText_def newline_def join_terminated comp_def)
next
  assume "codes \<noteq> [] \<and> (\<forall>code\<in>set codes. CHR 0x0A \<notin> set (text_code code))"
  then show "split_str (CHR 0x0A) (allText codes) = map text_code codes"
    unfolding allText_def newline_def by (intro split_join) auto
next
  assume "scannedCodes s \<noteq> []"
  then show "\<exists>rest. effects (copyAll env s)
                  = effects s @ ClipboardWriteText (allText (scannedCodes s)) # rest"
    by (rule copyAll_writes_allText)
next
  show "allText [\<lparr>id_code = i1, text_code = ''A1'', timestamp = t1\<rparr>,
                 \<lparr>id_code = i2, text_code = ''B2'', timestamp = t2\<rparr>,
                 \<lparr>id_code = i3, text_code = ''C3'', timestamp = t3\<rparr>]
          = ''A1'' @ [CHR 0x0A] @ ''B2'' @ [CHR 0x0A] @ ''C3''"
    by (simp add: allText_def newline_def)
qed

theorem copyAll_export_format_witness:
  "split_str (CHR 0x0A)
     (allText [\<lparr>id_code = ''1'', text_code = ''A1'', timestamp = 1\<rparr>,
               \<lparr>id_code = ''2'', text_code = ''B2'', timestamp = 2\<rparr>,
               \<lparr>id_code = ''3'', text_code = ''C3'', timestamp = 3\<rparr>])
     = [''A1'', ''B2'', ''C3''] \<and>
   hd (effects (copyAll \<lparr>writeTextOk = True, execCommandOk = True\<rparr>
          (initial\<lparr>scannedCodes := [\<lparr>id_code = ''1'', text_code = ''A1'', timestamp = 1\<rparr>,
                                     \<lparr>id_code = ''2'', text_code = ''B2'', timestamp = 2\<rparr>,
                                     \<lparr>id_code = ''3'', text_code = ''C3'', timestamp = 3\<rparr>]\<rparr>)))
     = ClipboardWriteText (''A1'' @ [CHR 0x0A] @ ''B2'' @ [CHR 0x0A] @ ''C3'')"
  using copyAll_export_format
          [of "[\<lparr>id_code = ''1'', text_code = ''A1'', timestamp = 1\<rparr>,
                \<lparr>id_code = ''2'', text_code = ''B2'', timestamp = 2\<rparr>,
                \<lparr>id_code = ''3'', text_code = ''C3'', timestamp = 3\<rparr>]"
              "initial\<lparr>scannedCodes := [\<lparr>id_code = ''1'', text_code = ''A1'', timestamp = 1\<rparr>,
                                         \<lparr>id_code = ''2'', text_code = ''B2'', timestamp = 2\<rparr>,
                                         \<lparr>id_code = ''3'', text_code = ''C3'', timestamp = 3\<rparr>]\<rparr>"
              "\<lparr>writeTextOk = True, execCommandOk = True\<rparr>"]
  by (auto simp add: initial_def allText_def newline_def)

text \<open>
  Claim C10. With an empty list \<open>copyAll\<close> returns at line 317: the state after it is
  the state before it, and so are the effects (no clipboard write, no textarea, no
  alert).
\<close>

theorem copyAll_empty_noop:
  "length (scannedCodes s) = 0 \<Longrightarrow> copyAll env s = s \<and> effects (copyAll env s) = effects s"
  by (simp add: copyAll_def)

theorem copyAll_empty_noop_witness:
  "length (scannedCodes initial) = 0 \<and>
   copyAll \<lparr>writeTextOk = True, execCommandOk = True\<rparr> initial = initial \<and>
   effects (copyAll \<lparr>writeTextOk = True, execCommandOk = True\<rparr> initial) = []"
  using copyAll_empty_noop [of initial "\<lparr>writeTextOk = True, execCommandOk = True\<rparr>"]
  by (simp add: initial_def)

section \<open>Camera discovery\<close>

lemma includes_str_sublist: "includes_str s sub \<longleftrightarrow> sublist sub s"
  by (induction s) (auto simp: sublist_Cons_right)

lemma isBackCamera_sublist:
  "isBackCamera cam \<longleftrightarrow>
     (\<exists>w\<in>{''back'', ''rear'', ''environment''}. sublist w (toLowerCase (label cam)))"
  by (simp add: isBackCamera_def includes_str_sublist)

lemma preferredCamera_cases:
  assumes "cams \<noteq> []"
  shows "(\<exists>i<length cams. isBackCamera (cams ! i) \<and> (\<forall>j<i. \<not> isBackCamera (cams ! j)) \<and>
            preferredCamera cams = cams ! i) \<or>
         ((\<forall>c\<in>set cams. \<not> isBackCamera c) \<and> 1 < length cams \<and> preferredCamera cams = last cams) \<or>
         ((\<forall>c\<in>set cams. \<not> isBackCamera c) \<and> length cams = 1 \<and> preferredCamera cams = hd cams)"
proof (cases "find isBackCamera cams")
  case None
  then have none: "\<forall>c\<in>set cams. \<not> isBackCamera c"
    by (simp add: find_None_iff)
  show ?thesis
  proof (cases "1 < length cams")
    case True
    with None none assms show ?thesis
      by (simp add: preferredCamera_def last_conv_nth)
  next
    case False
    with assms have "length cams = 1"
      by (cases cams) auto
    with None none assms show ?thesis
      by (simp add: preferredCamera_def hd_conv_nth)
  qed
next
  case (Some backCamera)
  then obtain i where "i < length cams" "isBackCamera (cams ! i)" "backCamera = cams ! i"
    "\<forall>j<i. \<not> isBackCamera (cams ! j)"
    by (auto simp: find_Some_iff)
  with Some show ?thesis
    by (auto simp: preferredCamera_def)
qed

lemma loadCameras_found:
  assumes "permission env = Granted n" and "listing env = Listed devices" and "devices \<noteq> []"
  shows "availableCameras (loadCameras env s) = cameraList devices \<and>
         selectedCameraId (loadCameras env s) = deviceId (preferredCamera (cameraList devices)) \<and>
         error (loadCameras env s) = None \<and> \<not> isLoading (loadCameras env s) \<and>
         isScanning (loadCameras env s) = isScanning s"
  using assms
  by (simp add: loadCameras_def loadCamerasTry_def Let_def stopTracks_def openStream_def emit_def)

lemma cameraList_nonempty: "devices \<noteq> [] \<Longrightarrow> cameraList devices \<noteq> []"
  by (simp add: cameraList_def enumerate_eq_zip)

lemma cameraList_two:
  "cameraList [a, b] =
     [\<lparr>deviceId = deviceId a, label = (if label a \<noteq> [] then label a else ''Camera 1'')\<rparr>,
      \<lparr>deviceId = deviceId b, label = (if label b \<noteq> [] then label b else ''Camera 2'')\<rparr>]"
  by (simp add: cameraList_def toString_small digit_def)

lemma front_back:
  assumes "map label devices = [''Front Camera'', ''Back Camera'']"
  shows "deviceId (preferredCamera (cameraList devices)) = deviceId (devices ! 1)"
proof -
  from assms obtain a b where d: "devices = [a, b]" "label a = ''Front Camera''" "label b = ''Back Camera''"
    by (auto simp: map_eq_Cons_conv)
  show ?thesis
    unfolding d(1) cameraList_two
    by (simp add: d preferredCamera_def isBackCamera_def toLowerCase_def toLowerChar_def)
qed

lemma unlabeled_pair:
  assumes "map label devices = [[], []]"
  shows "deviceId (preferredCamera (cameraList devices)) = deviceId (devices ! 1)"
proof -
  from assms obtain a b where d: "devices = [a, b]" "label a = []" "label b = []"
    by (auto simp: map_eq_Cons_conv)
  show ?thesis
    unfolding d(1) cameraList_two
    by (simp add: d preferredCamera_def isBackCamera_def toLowerCase_def toLowerChar_def)
qed


lemma liveStreams_dead_stream:
  "liveStreams (s\<lparr>streams := streams s @ [replicate n False]\<rparr>) = liveStreams s"
proof -
  have "filter (\<lambda>i. liveStream ((streams s @ [replicate n False]) ! i)) [0..<length (streams s)]
          = filter (\<lambda>i. liveStream (streams s ! i)) [0..<length (streams s)]"
    by (rule filter_cong) (auto simp: nth_append)
  moreover have "\<not> liveStream (replicate n False)"
    by (simp add: liveStream_def list_ex_iff)
  ultimately show ?thesis
    by (simp add: liveStreams_def)
qed

lemma loadCameras_none_found:
  assumes "permission env = Granted n" and "listing env = Listed []"
  shows "loadCameras env s =
           s\<lparr>isLoading := False,
             error := Some ''No camera devices found. Please connect a camera and refresh the page.'',
             codeReaderRef := True,
             streams := streams s @ [replicate n False],
             effects := effects s @ (if codeReaderRef s then [] else [ReaderCreate])
                        @ GetUserMedia PermissionProbe # map (TrackStop (length (streams s))) [0..<n]
                        @ [ListVideoInputDevices,
                           ConsoleError [''Camera detection error:'',
                             ''No camera devices found. Please connect a camera and refresh the page.'']]\<rparr>"
  using assms
  by (simp add: loadCameras_def loadCamerasTry_def Let_def stopTracks_def openStream_def emit_def
        errorMessage_def)

lemma loadCameras_retry:
  assumes "permission env' = Granted n'" and "listing env' = Listed devices" and "devices \<noteq> []"
  shows "error (loadCameras env' t) = None \<and>
         availableCameras (loadCameras env' t) = cameraList devices \<and>
         (\<not> isScanning t \<longrightarrow> offered (loadCameras env' t) (StartScanning senv))"
  using loadCameras_found [OF assms, of t] cameraList_nonempty [OF assms(3)] by simp

text \<open>
  Claim C7. When the permission probe is granted and the enumeration returns no
  device, \<open>loadCameras\<close> ends with the message of line 102 in \<open>error\<close> (rendered
  at line 378), the loading flag cleared, and the records, \<open>isScanning\<close>, the camera
  list, the selection, the decode subscription, the bound stream and the live
  streams as they were (the probe's stream is stopped). The component can be asked
  again: with no cameras and not scanning the Refresh control is offered, and a later
  \<open>loadCameras\<close> that finds devices clears the error, fills the list and, when not
  scanning, leaves the Start control offered.
\<close>

theorem loadCameras_no_devices:
  assumes "permission env = Granted n" and "listing env = Listed []"
  shows "error (loadCameras env s)
           = Some ''No camera devices found. Please connect a camera and refresh the page.'' \<and>
         \<not> isLoading (loadCameras env s) \<and>
         scannedCodes (loadCameras env s) = scannedCodes s \<and>
         isScanning (loadCameras env s) = isScanning s \<and>
         availableCameras (loadCameras env s) = availableCameras s \<and>
         selectedCameraId (loadCameras env s) = selectedCameraId s \<and>
         decoding (loadCameras env s) = decoding s \<and>
         srcObject (loadCameras env s) = srcObject s \<and>
         liveStreams (loadCameras env s) = liveStreams s \<and>
         (\<not> isScanning s \<and> availableCameras s = []
            \<longrightarrow> offered (loadCameras env s) (RefreshCameras env')) \<and>
         (permission env' = Granted n' \<and> listing env' = Listed devices \<and> devices \<noteq> []
            \<longrightarrow> error (loadCameras env' (loadCameras env s)) = None \<and>
                availableCameras (loadCameras env' (loadCameras env s)) = cameraList devices \<and>
                (\<not> isScanning s
                   \<longrightarrow> offered (loadCameras env' (loadCameras env s)) (StartScanning senv)))"
proof -
  note held = loadCameras_none_found [OF assms, of s]
  have live: "liveStreams (loadCameras env s) = liveStreams s"
    unfolding held using liveStreams_dead_stream [of s n] by (simp add: liveStreams_def)
  have same: "isScanning (loadCameras env s) = isScanning s"
    by (simp add: held)
  have retry: "permission env' = Granted n' \<and> listing env' = Listed devices \<and> devices \<noteq> []
            \<longrightarrow> error (loadCameras env' (loadCameras env s)) = None \<and>
                availableCameras (loadCameras env' (loadCameras env s)) = cameraList devices \<and>
                (\<not> isScanning s
                   \<longrightarrow> offered (loadCameras env' (loadCameras env s)) (StartScanning senv))"
    using loadCameras_retry [of env' n' devices "loadCameras env s" senv] unfolding same by blast
  have rest: "error (loadCameras env s)
           = Some ''No camera devices found. Please connect a camera and refresh the page.'' \<and>
         \<not> isLoading (loadCameras env s) \<and>
         scannedCodes (loadCameras env s) = scannedCodes s \<and>
         isScanning (loadCameras env s) = isScanning s \<and>
         availableCameras (loadCameras env s) = availableCameras s \<and>
         selectedCameraId (loadCameras env s) = selectedCameraId s \<and>
         decoding (loadCameras env s) = decoding s \<and>
         srcObject (loadCameras env s) = srcObject s \<and>
         (\<not> isScanning s \<and> availableCameras s = []
            \<longrightarrow> offered (loadCameras env s) (RefreshCameras env'))"
    by (simp add: held)
  from rest live retry show ?thesis
    by blast
qed

theorem loadCameras_no_devices_witness:
  "error (loadCameras \<lparr>permission = Granted 1, listing = Listed []\<rparr> initial)
     = Some ''No camera devices found. Please connect a camera and refresh the page.'' \<and>
   offered (loadCameras \<lparr>permission = Granted 1, listing = Listed []\<rparr> initial)
     (RefreshCameras \<lparr>permission = Granted 1, listing = Listed [\<lparr>deviceId = ''d1'', label = []\<rparr>]\<rparr>) \<and>
   availableCameras
     (loadCameras \<lparr>permission = Granted 1, listing = Listed [\<lparr>deviceId = ''d1'', label = []\<rparr>]\<rparr>
        (loadCameras \<lparr>permission = Granted 1, listing = Listed []\<rparr> initial))
     = [\<lparr>deviceId = ''d1'', label = ''Camera 1''\<rparr>]"
proof -
  have p: "permission \<lparr>permission = Granted 1, listing = Listed []\<rparr> = Granted 1"
    and l: "listing \<lparr>permission = Granted 1, listing = Listed []\<rparr> = Listed []"
    by simp_all
  have i: "\<not> isScanning initial \<and> availableCameras initial = []"
    by (simp add: initial_def)
  have c: "cameraList [\<lparr>deviceId = ''d1'', label = []\<rparr>] = [\<lparr>deviceId = ''d1'', label = ''Camera 1''\<rparr>]"
    by (simp add: cameraList_def toString_small digit_def)
  show ?thesis
    using loadCameras_no_devices
          [OF p l, of initial
              "\<lparr>permission = Granted 1, listing = Listed [\<lparr>deviceId = ''d1'', label = []\<rparr>]\<rparr>"
              1 "[\<lparr>deviceId = ''d1'', label = []\<rparr>]"] i c
    by simp
qed

lemma upper_keys:
  "map fst (zip ''ABCDEFGHIJKLMNOPQRSTUVWXYZ'' ''abcdefghijklmnopqrstuvwxyz'') = ''ABCDEFGHIJKLMNOPQRSTUVWXYZ''"
  by simp

lemma upper_distinct:
  "distinct (map fst (zip ''ABCDEFGHIJKLMNOPQRSTUVWXYZ'' ''abcdefghijklmnopqrstuvwxyz''))"
  unfolding upper_keys by simp

lemma lookup_lower:
  assumes "distinct (map fst t)" and "a \<notin> set (map fst t)"
  shows "(a = b \<or> (a, b) \<in> set t \<or> (b, a) \<in> set t) \<longleftrightarrow>
         (case map_of t b of Some l \<Rightarrow> l | None \<Rightarrow> b) = a"
proof (cases "map_of t b")
  case None
  then have "b \<notin> fst ` set t"
    by (simp add: map_of_eq_None_iff)
  then have "(b, a) \<notin> set t"
    by force
  moreover from assms(2) have "(a, b) \<notin> set t"
    by force
  ultimately show ?thesis
    using None by auto
next
  case (Some l)
  then have in_t: "(b, l) \<in> set t"
    by (rule map_of_SomeD)
  from assms(2) have not_a: "(a, b) \<notin> set t"
    by force
  have "(b, a) \<in> set t \<longleftrightarrow> l = a"
    using map_of_is_SomeI [OF assms(1), of b a] Some in_t by auto
  moreover have "a \<noteq> b"
    using in_t assms(2) by force
  ultimately show ?thesis
    using Some not_a by auto
qed

lemma sameLetter_lower:
  assumes "a \<notin> set ''ABCDEFGHIJKLMNOPQRSTUVWXYZ''"
  shows "sameLetter a b \<longleftrightarrow> toLowerChar b = a"
  unfolding sameLetter_def toLowerChar_def
proof (rule lookup_lower [OF upper_distinct])
  from assms
  show "a \<notin> set (map fst (zip ''ABCDEFGHIJKLMNOPQRSTUVWXYZ'' ''abcdefghijklmnopqrstuvwxyz''))"
    unfolding upper_keys .
qed

lemma startsWith_lower:
  assumes "\<And>a b. a \<in> set w \<Longrightarrow> sameLetter a b \<longleftrightarrow> toLowerChar b = a"
  shows "startsWithIgnoringCase s w \<longleftrightarrow> prefix w (toLowerCase s)"
  using assms
proof (induction s w rule: startsWithIgnoringCase.induct)
  case (1 s)
  then show ?case by simp
next
  case (2 a w)
  then show ?case by (simp add: toLowerCase_def)
next
  case (3 b s a w)
  have "startsWithIgnoringCase s w \<longleftrightarrow> prefix w (toLowerCase s)"
    by (rule 3(1)) (simp add: 3(2))
  moreover have "sameLetter a b \<longleftrightarrow> toLowerChar b = a"
    by (rule 3(2)) simp
  ultimately show ?case
    by (auto simp: toLowerCase_def)
qed

lemma contains_lower:
  assumes "\<And>a b. a \<in> set w \<Longrightarrow> sameLetter a b \<longleftrightarrow> toLowerChar b = a"
  shows "containsIgnoringCase s w \<longleftrightarrow> includes_str (toLowerCase s) w"
proof (induction s)
  case Nil
  then show ?case by (simp add: toLowerCase_def)
next
  case (Cons c cs)
  from startsWith_lower [of w "c # cs"] assms
  have "startsWithIgnoringCase (c # cs) w \<longleftrightarrow> prefix w (toLowerCase (c # cs))"
    by blast
  with Cons show ?case
    by (simp add: toLowerCase_def)
qed

lemma lower_words:
  assumes "a \<in> set ''back'' \<union> set ''rear'' \<union> set ''environment''"
  shows "sameLetter a b \<longleftrightarrow> toLowerChar b = a"
proof (rule sameLetter_lower)
  from assms show "a \<notin> set ''ABCDEFGHIJKLMNOPQRSTUVWXYZ''"
    by auto
qed

lemma words_ignoring_case:
  "containsIgnoringCase s ''back'' \<longleftrightarrow> includes_str (toLowerCase s) ''back''"
  "containsIgnoringCase s ''rear'' \<longleftrightarrow> includes_str (toLowerCase s) ''rear''"
  "containsIgnoringCase s ''environment'' \<longleftrightarrow> includes_str (toLowerCase s) ''environment''"
  by (rule contains_lower, rule lower_words, blast)+


lemma cameraList_three:
  "cameraList [a, b, c] =
     [\<lparr>deviceId = deviceId a, label = (if label a \<noteq> [] then label a else ''Camera 1'')\<rparr>,
      \<lparr>deviceId = deviceId b, label = (if label b \<noteq> [] then label b else ''Camera 2'')\<rparr>,
      \<lparr>deviceId = deviceId c, label = (if label c \<noteq> [] then label c else ''Camera 3'')\<rparr>]"
  by (simp add: cameraList_def toString_small digit_def)

lemma back_front:
  assumes "map label devices = [''Back Camera'', ''Front Camera'']"
  shows "deviceId (preferredCamera (cameraList devices)) = deviceId (devices ! 0)"
proof -
  from assms obtain a b where d: "devices = [a, b]" "label a = ''Back Camera''" "label b = ''Front Camera''"
    by (auto simp: map_eq_Cons_conv)
  show ?thesis
    unfolding d(1) cameraList_two
    by (simp add: d preferredCamera_def isBackCamera_def toLowerCase_def toLowerChar_def)
qed

lemma front_rear_back:
  assumes "map label devices = [''Front'', ''REAR Camera'', ''back'']"
  shows "deviceId (preferredCamera (cameraList devices)) = deviceId (devices ! 1)"
proof -
  from assms obtain a b c where d: "devices = [a, b, c]" "label a = ''Front''"
    "label b = ''REAR Camera''" "label c = ''back''"
    by (auto simp: map_eq_Cons_conv)
  show ?thesis
    unfolding d(1) cameraList_three
    by (simp add: d preferredCamera_def isBackCamera_def toLowerCase_def toLowerChar_def)
qed


lemma isBackCamera_ignoring_case:
  "isBackCamera cam \<longleftrightarrow>
     (\<exists>w\<in>{''back'', ''rear'', ''environment''}. containsIgnoringCase (label cam) w)"
  by (simp add: isBackCamera_def words_ignoring_case)

text \<open>
  Claim C6. After a discovery that finds devices, the camera list is the devices with
  their labels filled in, and the selected camera is: the first camera of the list
  whose label contains back, rear or environment, ignoring case; if there is none
  and there is more than one device, the last camera; if there is none and there is
  one device, the first. ``Contains, ignoring case'' is what the code computes with
  \<open>toLowerCase\<close> and \<open>includes\<close>, and is the letter-by-letter comparison
  \<open>containsIgnoringCase\<close>, which does not mention \<open>toLowerCase\<close>. For the labels
  Front Camera, Back Camera the second device is selected, and for two devices
  without labels the second (last); for Back Camera, Front Camera the first device
  is selected, and for Front, REAR Camera, back the second: the first match wins,
  whatever the case of its letters.
\<close>

theorem loadCameras_prefers_back_camera:
  assumes "permission env = Granted n" and "listing env = Listed devices" and "devices \<noteq> []"
  shows "availableCameras (loadCameras env s) = cameraList devices \<and>
         ((\<exists>i<length (cameraList devices).
              isBackCamera (cameraList devices ! i) \<and>
              (\<forall>j<i. \<not> isBackCamera (cameraList devices ! j)) \<and>
              selectedCameraId (loadCameras env s) = deviceId (cameraList devices ! i)) \<or>
          ((\<forall>c\<in>set (cameraList devices). \<not> isBackCamera c) \<and> 1 < length devices \<and>
             selectedCameraId (loadCameras env s) = deviceId (last (cameraList devices))) \<or>
          ((\<forall>c\<in>set (cameraList devices). \<not> isBackCamera c) \<and> length devices = 1 \<and>
             selectedCameraId (loadCameras env s) = deviceId (hd (cameraList devices)))) \<and>
         (\<forall>cam. isBackCamera cam \<longleftrightarrow>
            (\<exists>w\<in>{''back'', ''rear'', ''environment''}. sublist w (toLowerCase (label cam)))) \<and>
         (\<forall>cam. isBackCamera cam \<longleftrightarrow>
            (\<exists>w\<in>{''back'', ''rear'', ''environment''}. containsIgnoringCase (label cam) w)) \<and>
         (map label devices = [''Front Camera'', ''Back Camera'']
            \<longrightarrow> selectedCameraId (loadCameras env s) = deviceId (devices ! 1)) \<and>
         (map label devices = [[], []]
            \<longrightarrow> selectedCameraId (loadCameras env s) = deviceId (devices ! 1)) \<and>
         (map label devices = [''Back Camera'', ''Front Camera'']
            \<longrightarrow> selectedCameraId (loadCameras env s) = deviceId (devices ! 0)) \<and>
         (map label devices = [''Front'', ''REAR Camera'', ''back'']
            \<longrightarrow> selectedCameraId (loadCameras env s) = deviceId (devices ! 1))"
proof -
  note found = loadCameras_found [OF assms, of s]
  have len: "length (cameraList devices) = length devices"
    by (simp add: cameraList_def)
  have sel: "selectedCameraId (loadCameras env s) = deviceId (preferredCamera (cameraList devices))"
    using found by blast
  have one: "availableCameras (loadCameras env s) = cameraList devices"
    using found by blast
  have two: "(\<exists>i<length (cameraList devices).
              isBackCamera (cameraList devices ! i) \<and>
              (\<forall>j<i. \<not> isBackCamera (cameraList devices ! j)) \<and>
              selectedCameraId (loadCameras env s) = deviceId (cameraList devices ! i)) \<or>
          ((\<forall>c\<in>set (cameraList devices). \<not> isBackCamera c) \<and> 1 < length devices \<and>
             selectedCameraId (loadCameras env s) = deviceId (last (cameraList devices))) \<or>
          ((\<forall>c\<in>set (cameraList devices). \<not> isBackCamera c) \<and> length devices = 1 \<and>
             selectedCameraId (loadCameras env s) = deviceId (hd (cameraList devices)))"
    using preferredCamera_cases [OF cameraList_nonempty [OF assms(3)]]
    unfolding len sel by metis
  have three: "\<forall>cam. isBackCamera cam \<longleftrightarrow>
            (\<exists>w\<in>{''back'', ''rear'', ''environment''}. sublist w (toLowerCase (label cam)))"
    using isBackCamera_sublist by blast
  have four: "\<forall>cam. isBackCamera cam \<longleftrightarrow>
            (\<exists>w\<in>{''back'', ''rear'', ''environment''}. containsIgnoringCase (label cam) w)"
    using isBackCamera_ignoring_case by blast
  have five: "map label devices = [''Front Camera'', ''Back Camera'']
            \<longrightarrow> selectedCameraId (loadCameras env s) = deviceId (devices ! 1)"
    unfolding sel using front_back [of devices] by blast
  have six: "map label devices = [[], []]
            \<longrightarrow> selectedCameraId (loadCameras env s) = deviceId (devices ! 1)"
    unfolding sel using unlabeled_pair [of devices] by blast
  have seven: "map label devices = [''Back Camera'', ''Front Camera'']
            \<longrightarrow> selectedCameraId (loadCameras env s) = deviceId (devices ! 0)"
    unfolding sel using back_front [of devices] by blast
  have eight: "map label devices = [''Front'', ''REAR Camera'', ''back'']
            \<longrightarrow> selectedCameraId (loadCameras env s) = deviceId (devices ! 1)"
    unfolding sel using front_rear_back [of devices] by blast
  from one two three four five six seven eight show ?thesis
    by (intro conjI)
qed

theorem loadCameras_prefers_back_camera_witness:
  "selectedCameraId
     (loadCameras \<lparr>permission = Granted 1,
                   listing = Listed [\<lparr>deviceId = ''d1'', label = ''Front Camera''\<rparr>,
                                     \<lparr>deviceId = ''d2'', label = ''Back Camera''\<rparr>]\<rparr> initial) = ''d2'' \<and>
   selectedCameraId
     (loadCameras \<lparr>permission = Granted 1,
                   listing = Listed [\<lparr>deviceId = ''d1'', label = []\<rparr>,
                                     \<lparr>deviceId = ''d2'', label = []\<rparr>]\<rparr> initial) = ''d2'' \<and>
   selectedCameraId
     (loadCameras \<lparr>permission = Granted 1,
                   listing = Listed [\<lparr>deviceId = ''d1'', label = ''Back Camera''\<rparr>,
                                     \<lparr>deviceId = ''d2'', label = ''Front Camera''\<rparr>]\<rparr> initial) = ''d1'' \<and>
   selectedCameraId
     (loadCameras \<lparr>permission = Granted 1,
                   listing = Listed [\<lparr>deviceId = ''d1'', label = ''Front''\<rparr>,
                                     \<lparr>deviceId = ''d2'', label = ''REAR Camera''\<rparr>,
                                     \<lparr>deviceId = ''d3'', label = ''back''\<rparr>]\<rparr> initial) = ''d2'' \<and>
   isBackCamera \<lparr>deviceId = ''d2'', label = ''REAR Camera''\<rparr> \<and>
   containsIgnoringCase ''REAR Camera'' ''rear'' \<and>
   toLowerCase ''REAR Camera'' = ''rear camera''"
proof -
  have one: "selectedCameraId
     (loadCameras \<lparr>permission = Granted 1,
                   listing = Listed [\<lparr>deviceId = ''d1'', label = ''Front Camera''\<rparr>,
                                     \<lparr>deviceId = ''d2'', label = ''Back Camera''\<rparr>]\<rparr> initial) = ''d2''"
    using loadCameras_prefers_back_camera [where n = 1 and s = initial and devices = "[\<lparr>deviceId = ''d1'', label = ''Front Camera''\<rparr>,
                                  \<lparr>deviceId = ''d2'', label = ''Back Camera''\<rparr>]"
                 and env = "\<lparr>permission = Granted 1,
                   listing = Listed [\<lparr>deviceId = ''d1'', label = ''Front Camera''\<rparr>,
                                     \<lparr>deviceId = ''d2'', label = ''Back Camera''\<rparr>]\<rparr>"]
    by simp
  have two: "selectedCameraId
     (loadCameras \<lparr>permission = Granted 1,
                   listing = Listed [\<lparr>deviceId = ''d1'', label = []\<rparr>,
                                     \<lparr>deviceId = ''d2'', label = []\<rparr>]\<rparr> initial) = ''d2''"
    using loadCameras_prefers_back_camera [where n = 1 and s = initial and devices = "[\<lparr>deviceId = ''d1'', label = []\<rparr>,
                                  \<lparr>deviceId = ''d2'', label = []\<rparr>]"
                 and env = "\<lparr>permission = Granted 1,
                   listing = Listed [\<lparr>deviceId = ''d1'', label = []\<rparr>,
                                     \<lparr>deviceId = ''d2'', label = []\<rparr>]\<rparr>"]
    by simp
  have three: "selectedCameraId
     (loadCameras \<lparr>permission = Granted 1,
                   listing = Listed [\<lparr>deviceId = ''d1'', label = ''Back Camera''\<rparr>,
                                     \<lparr>deviceId = ''d2'', label = ''Front Camera''\<rparr>]\<rparr> initial) = ''d1''"
    using loadCameras_prefers_back_camera [where n = 1 and s = initial and devices = "[\<lparr>deviceId = ''d1'', label = ''Back Camera''\<rparr>,
                                  \<lparr>deviceId = ''d2'', label = ''Front Camera''\<rparr>]"
                 and env = "\<lparr>permission = Granted 1,
                   listing = Listed [\<lparr>deviceId = ''d1'', label = ''Back Camera''\<rparr>,
                                     \<lparr>deviceId = ''d2'', label = ''Front Camera''\<rparr>]\<rparr>"]
    by simp
  have four: "selectedCameraId
     (loadCameras \<lparr>permission = Granted 1,
                   listing = Listed [\<lparr>deviceId = ''d1'', label = ''Front''\<rparr>,
                                     \<lparr>deviceId = ''d2'', label = ''REAR Camera''\<rparr>,
                                     \<lparr>deviceId = ''d3'', label = ''back''\<rparr>]\<rparr> initial) = ''d2''"
    using loadCameras_prefers_back_camera [where n = 1 and s = initial and devices = "[\<lparr>deviceId = ''d1'', label = ''Front''\<rparr>,
                                  \<lparr>deviceId = ''d2'', label = ''REAR Camera''\<rparr>,
                                  \<lparr>deviceId = ''d3'', label = ''back''\<rparr>]"
                 and env = "\<lparr>permission = Granted 1,
                   listing = Listed [\<lparr>deviceId = ''d1'', label = ''Front''\<rparr>,
                                     \<lparr>deviceId = ''d2'', label = ''REAR Camera''\<rparr>,
                                     \<lparr>deviceId = ''d3'', label = ''back''\<rparr>]\<rparr>"]
    by simp
  have five: "isBackCamera \<lparr>deviceId = ''d2'', label = ''REAR Camera''\<rparr>"
    by (simp add: isBackCamera_def toLowerCase_def toLowerChar_def)
  have six: "containsIgnoringCase ''REAR Camera'' ''rear''"
    by (simp add: sameLetter_def)
  have seven: "toLowerCase ''REAR Camera'' = ''rear camera''"
    by (simp add: toLowerCase_def toLowerChar_def)
  from one two three four five six seven show ?thesis
    by (intro conjI)
qed

section \<open>The decode callback: errors\<close>

lemma mounted_state:
  "mounted =
     \<lparr>scannedCodes = [], isScanning = False, error = None,
      availableCameras = [\<lparr>deviceId = ''d1'', label = ''Front Camera''\<rparr>,
                          \<lparr>deviceId = ''d2'', label = ''Back Camera''\<rparr>],
      selectedCameraId = ''d2'', isLoading = False, scanStatus = [],
      codeReaderRef = True, videoRef = True, srcObject = None, border = [],
      boxShadow = [], streams = [[False]], decoding = None, timers = [],
      effects = [ReaderCreate, GetUserMedia PermissionProbe, TrackStop 0 0, ListVideoInputDevices],
      pendingLoads = [], pendingStarts = []\<rparr>"
  by (simp add: mounted_def mount_def twoCameras_def initial_def loadCameras_def loadCamerasTry_def
        Let_def emit_def openStream_def stopTracks_def cameraList_def preferredCamera_def
        isBackCamera_def toLowerCase_def toLowerChar_def)

lemma scanning_state:
  "scanning =
     \<lparr>scannedCodes = [], isScanning = True, error = None,
      availableCameras = [\<lparr>deviceId = ''d1'', label = ''Front Camera''\<rparr>,
                          \<lparr>deviceId = ''d2'', label = ''Back Camera''\<rparr>],
      selectedCameraId = ''d2'', isLoading = False,
      scanStatus = ''Ready - Point camera at barcode'',
      codeReaderRef = True, videoRef = True, srcObject = Some 1, border = [],
      boxShadow = [], streams = [[False], [True]],
      decoding = Some \<lparr>closed_scannedCodes = [], lastScanTime = 0, scanAttempts = 0\<rparr>,
      timers = [],
      effects = [ReaderCreate, GetUserMedia PermissionProbe, TrackStop 0 0, ListVideoInputDevices,
                 GetUserMedia (FullConstraints ''d2''), DecodeFromVideoDevice ''d2'',
                 ConsoleLog [''Barcode scanning started with device:'', ''d2''],
                 ConsoleLog [''Video dimensions:'']],
      pendingLoads = [], pendingStarts = []\<rparr>"
  by (simp add: scanning_def mounted_state startScanning_def granted_def acquire_def
        Let_def emit_def openStream_def)

lemma errorBranch_None: "errorBranch None cs = cs"
  by (simp add: errorBranch_def)

lemma errorBranch_notFound: "notFound e \<Longrightarrow> errorBranch (Some e) cs = cs"
  by (auto simp: errorBranch_def notFound_def split: option.splits)

lemma errorBranch_emits: "\<exists>es. errorBranch err (c, s) = (c, emit es s)"
proof (cases "errorBranch err (c, s) = (c, s)")
  case True
  then have "errorBranch err (c, s) = (c, emit [] s)"
    by (simp add: emit_def)
  then show ?thesis ..
next
  case False
  then show ?thesis
    by (auto simp: errorBranch_def split: option.splits if_splits)
qed

lemma errorBranch_genuine:
  assumes "errorName e = Some n" and "n \<noteq> []" and "\<not> notFound e" and "scanAttempts c mod 50 = 0"
  shows "errorBranch (Some e) (c, s)
           = (c, emit [ConsoleLog [''Scan attempt'', toString (scanAttempts c), '':'', n]] s)"
  using assms by (simp add: errorBranch_def notFound_def)

lemma decodeCallback_notFound:
  "notFound e \<Longrightarrow> decodeCallback result (Some e) k cs = decodeCallback result None k cs"
  by (simp add: decodeCallback_def Let_def errorBranch_notFound errorBranch_None split: option.split)

lemma decodeCallback_no_result:
  "decodeCallback None err k (c, s) = errorBranch err (c\<lparr>scanAttempts := scanAttempts c + 1\<rparr>, s)"
  by (simp add: decodeCallback_def)

text \<open>
  Claim C8. A decode condition the callback takes for "not found" leaves no trace: the
  callback does with it exactly what it does without an error, and with no result
  the component's state is untouched (no message, no status, no console line). A
  console line from the error branch means the error was not a "not found" one; such
  an error is logged at every 50th invocation. Whatever the error of an invocation
  without result, the state changes in nothing but console lines and the attempt
  counter: \<open>isScanning\<close>, the stream and the decode subscription stay as they were.
\<close>

theorem decode_errors_are_quiet:
  "(notFound e \<longrightarrow> decodeCallback result (Some e) k cs = decodeCallback result None k cs) \<and>
   (notFound e \<longrightarrow> snd (decodeCallback None (Some e) k cs) = snd cs) \<and>
   (effects (snd (decodeCallback result err k cs)) \<noteq> effects (snd (decodeCallback result None k cs))
      \<longrightarrow> (\<exists>e'. err = Some e' \<and> \<not> notFound e')) \<and>
   (errorName e = Some n \<and> n \<noteq> [] \<and> \<not> notFound e \<and> (scanAttempts c + 1) mod 50 = 0
      \<longrightarrow> effects (snd (decodeCallback None (Some e) k (c, s)))
            = effects s @ [ConsoleLog [''Scan attempt'', toString (scanAttempts c + 1), '':'', n]]) \<and>
   (decoding s = Some c
      \<longrightarrow> (\<exists>es c'. deliver None err k s = (emit es s)\<lparr>decoding := Some c'\<rparr>))"
proof (intro conjI impI)
  assume "notFound e"
  then show "decodeCallback result (Some e) k cs = decodeCallback result None k cs"
    by (rule decodeCallback_notFound)
next
  assume "notFound e"
  then show "snd (decodeCallback None (Some e) k cs) = snd cs"
    by (simp add: decodeCallback_def errorBranch_notFound)
next
  assume differ: "effects (snd (decodeCallback result err k cs))
                    \<noteq> effects (snd (decodeCallback result None k cs))"
  show "\<exists>e'. err = Some e' \<and> \<not> notFound e'"
  proof (cases err)
    case None
    with differ show ?thesis by simp
  next
    case (Some e')
    with differ decodeCallback_notFound [of e' result k cs] show ?thesis by auto
  qed
next
  assume "errorName e = Some n \<and> n \<noteq> [] \<and> \<not> notFound e \<and> (scanAttempts c + 1) mod 50 = 0"
  then show "effects (snd (decodeCallback None (Some e) k (c, s)))
            = effects s @ [ConsoleLog [''Scan attempt'', toString (scanAttempts c + 1), '':'', n]]"
    by (simp add: decodeCallback_no_result errorBranch_genuine emit_def)
next
  assume sub: "decoding s = Some c"
  obtain es where "errorBranch err (c\<lparr>scanAttempts := scanAttempts c + 1\<rparr>, s)
                     = (c\<lparr>scanAttempts := scanAttempts c + 1\<rparr>, emit es s)"
    using errorBranch_emits by blast
  with sub have "deliver None err k s = (emit es s)\<lparr>decoding := Some (c\<lparr>scanAttempts := scanAttempts c + 1\<rparr>)\<rparr>"
    by (simp add: deliver_def decodeCallback_no_result)
  then show "\<exists>es c'. deliver None err k s = (emit es s)\<lparr>decoding := Some c'\<rparr>"
    by blast
qed

theorem decode_errors_are_quiet_witness:
  "notFound (DecodeError (Some ''NotFoundException'')) \<and>
   deliver None (Some (DecodeError (Some ''NotFoundException''))) (reading_at 1700000000000) scanning
     = scanning\<lparr>decoding := Some \<lparr>closed_scannedCodes = [], lastScanTime = 0, scanAttempts = 1\<rparr>\<rparr> \<and>
   \<not> notFound (DecodeError (Some ''ChecksumException'')) \<and>
   effects (snd (decodeCallback None (Some (DecodeError (Some ''ChecksumException''))) (reading_at 1700000000000)
                  (\<lparr>closed_scannedCodes = [], lastScanTime = 0, scanAttempts = 49\<rparr>, scanning)))
     = effects scanning @ [ConsoleLog [''Scan attempt'', ''50'', '':'', ''ChecksumException'']]"
proof -
  have nf: "notFound (DecodeError (Some ''NotFoundException''))"
    by (simp add: notFound_def)
  have gen: "\<not> notFound (DecodeError (Some ''ChecksumException''))"
    by (simp add: notFound_def)
  note quiet = decode_errors_are_quiet
      [where e = "DecodeError (Some ''NotFoundException'')" and result = None
         and k = "reading_at 1700000000000"
         and cs = "(\<lparr>closed_scannedCodes = [], lastScanTime = 0, scanAttempts = 0\<rparr>, scanning)"]
  note loud = decode_errors_are_quiet
      [where e = "DecodeError (Some ''ChecksumException'')" and n = "''ChecksumException''"
         and c = "\<lparr>closed_scannedCodes = [], lastScanTime = 0, scanAttempts = 49\<rparr>"
         and k = "reading_at 1700000000000" and s = scanning]
  have one: "deliver None (Some (DecodeError (Some ''NotFoundException''))) (reading_at 1700000000000) scanning
     = scanning\<lparr>decoding := Some \<lparr>closed_scannedCodes = [], lastScanTime = 0, scanAttempts = 1\<rparr>\<rparr>"
    using quiet nf
    by (simp add: deliver_def scanning_state decodeCallback_no_result errorBranch_None)
  have two: "effects (snd (decodeCallback None (Some (DecodeError (Some ''ChecksumException''))) (reading_at 1700000000000)
                  (\<lparr>closed_scannedCodes = [], lastScanTime = 0, scanAttempts = 49\<rparr>, scanning)))
     = effects scanning @ [ConsoleLog [''Scan attempt'', ''50'', '':'', ''ChecksumException'']]"
    using loud gen by (simp add: toString_numeral toString_small digit_def)
  from nf gen one two show ?thesis
    by blast
qed

section \<open>The decode callback: results\<close>

lemma decodeCallback_accepts:
  assumes "\<not> list_ex (\<lambda>code. text_code code = getText r) (closed_scannedCodes c)"
  shows "decodeCallback (Some r) None k (c, s) =
           (c\<lparr>scanAttempts := scanAttempts c + 1, lastScanTime := now k\<rparr>,
            s\<lparr>scannedCodes := scannedCodes s @ [\<lparr>id_code = newId k, text_code = getText r, timestamp = stamp k\<rparr>],
              scanStatus := ''Barcode detected!'',
              border := ''4px solid #4caf50'', boxShadow := ''0 0 20px #4caf50'',
              timers := timers s @ [(800, RevertAccepted)],
              effects := effects s @ [ConsoleLog [''Barcode detected:'', getText r, ''Format:'', getBarcodeFormat r]]\<rparr>)"
  using assms by (simp add: decodeCallback_def Let_def errorBranch_None emit_def)

lemma decodeCallback_suppresses:
  assumes "list_ex (\<lambda>code. text_code code = getText r) (closed_scannedCodes c)"
    and "int (now k) - int (lastScanTime c) < scanCooldown"
  shows "decodeCallback (Some r) err k (c, s) = (c\<lparr>scanAttempts := scanAttempts c + 1\<rparr>, s)"
  using assms by (simp add: decodeCallback_def Let_def)

lemma decodeCallback_already_scanned:
  assumes "list_ex (\<lambda>code. text_code code = getText r) (closed_scannedCodes c)"
    and "\<not> int (now k) - int (lastScanTime c) < scanCooldown"
  shows "decodeCallback (Some r) None k (c, s) =
           (c\<lparr>scanAttempts := scanAttempts c + 1, lastScanTime := now k\<rparr>,
            s\<lparr>scanStatus := ''Already scanned'',
              timers := timers s @ [(800, RevertDuplicate)],
              effects := effects s @ [ConsoleLog [''Barcode detected:'', getText r, ''Format:'', getBarcodeFormat r]]\<rparr>)"
  using assms by (simp add: decodeCallback_def Let_def errorBranch_None emit_def)

text \<open>
  Claim C9, as the code has it. An accepted record's id is \<open>newId\<close> of the
  invocation's readings: the decimal millisecond count followed by the random
  fragment. For millisecond counts with the same number of digits (every
  \<open>Date.now()\<close> from 2001 to 2286 has thirteen) two ids are equal exactly when both
  the millisecond counts and the random fragments are equal. So ids differ whenever
  the milliseconds or the fragments differ, and nothing keeps them apart otherwise.
\<close>

theorem newId_collides_only_on_equal_readings:
  "(length (toString (idNow k1)) = length (toString (idNow k2))
      \<longrightarrow> (newId k1 = newId k2 \<longleftrightarrow> idNow k1 = idNow k2 \<and> random36 k1 = random36 k2)) \<and>
   (\<not> list_ex (\<lambda>code. text_code code = getText r) (closed_scannedCodes c)
      \<longrightarrow> scannedCodes (snd (decodeCallback (Some r) None k (c, s)))
            = scannedCodes s @ [\<lparr>id_code = newId k, text_code = getText r, timestamp = stamp k\<rparr>])"
proof (intro conjI impI)
  assume "length (toString (idNow k1)) = length (toString (idNow k2))"
  then show "newId k1 = newId k2 \<longleftrightarrow> idNow k1 = idNow k2 \<and> random36 k1 = random36 k2"
    using toString_inj [of "idNow k1" "idNow k2"] by (auto simp: newId_def)
next
  assume "\<not> list_ex (\<lambda>code. text_code code = getText r) (closed_scannedCodes c)"
  then show "scannedCodes (snd (decodeCallback (Some r) None k (c, s)))
            = scannedCodes s @ [\<lparr>id_code = newId k, text_code = getText r, timestamp = stamp k\<rparr>]"
    by (simp add: decodeCallback_accepts)
qed

lemma toString_1700000000000: "toString 1700000000000 = ''1700000000000''"
  by (simp add: toString_numeral toString_small digit_def)

lemma toString_1700000000001: "toString 1700000000001 = ''1700000000001''"
  by (simp add: toString_numeral toString_small digit_def)

theorem newId_collides_only_on_equal_readings_witness:
  "length (toString (idNow (reading_at 1700000000000))) = length (toString (idNow (reading_at 1700000000001))) \<and>
   newId (reading_at 1700000000000) \<noteq> newId (reading_at 1700000000001) \<and>
   scannedCodes (snd (decodeCallback (found ''A'') None (reading_at 1700000000000)
                        (\<lparr>closed_scannedCodes = [], lastScanTime = 0, scanAttempts = 0\<rparr>, scanning)))
     = [\<lparr>id_code = ''1700000000000k3j9x0q2a'', text_code = ''A'', timestamp = 1700000000000\<rparr>]"
proof -
  have len: "length (toString (idNow (reading_at 1700000000000)))
               = length (toString (idNow (reading_at 1700000000001)))"
    by (simp add: reading_at_def toString_1700000000000 toString_1700000000001)
  have fresh: "\<not> list_ex (\<lambda>code. text_code code = getText (Result ''A'' ''QR_CODE''))
                   (closed_scannedCodes \<lparr>closed_scannedCodes = [], lastScanTime = 0, scanAttempts = 0\<rparr>)"
    by simp
  note inst = newId_collides_only_on_equal_readings
      [where ?k1.0 = "reading_at 1700000000000" and ?k2.0 = "reading_at 1700000000001"
         and r = "Result ''A'' ''QR_CODE''" and k = "reading_at 1700000000000" and s = scanning
         and c = "\<lparr>closed_scannedCodes = [], lastScanTime = 0, scanAttempts = 0\<rparr>"]
  have differ: "newId (reading_at 1700000000000) \<noteq> newId (reading_at 1700000000001)"
    using inst len by (simp add: reading_at_def)
  have added: "scannedCodes (snd (decodeCallback (found ''A'') None (reading_at 1700000000000)
                        (\<lparr>closed_scannedCodes = [], lastScanTime = 0, scanAttempts = 0\<rparr>, scanning)))
     = [\<lparr>id_code = ''1700000000000k3j9x0q2a'', text_code = ''A'', timestamp = 1700000000000\<rparr>]"
    using inst fresh
    by (simp add: found_def scanning_state newId_def reading_at_def toString_1700000000000)
  from len differ added show ?thesis
    by blast
qed

lemma run_start: "run (StartScanning granted # as) mounted = run as scanning"
  by (simp add: scanning_def mounted_state)

text \<open>
  Claim C9 as stated fails: two codes accepted in the same millisecond with the same
  random fragment get the same id.
\<close>

theorem same_reading_same_id:
  "map_option (\<lambda>s. map id_code (scannedCodes s))
     (run [StartScanning granted,
           Decode (found ''A'') None (reading_at 1700000000000),
           Decode (found ''B'') None (reading_at 1700000000000)] mounted)
     = Some [''1700000000000k3j9x0q2a'', ''1700000000000k3j9x0q2a'']"
  by (simp only: run_start)
     (simp add: scanning_state deliver_def decodeCallback_def Let_def errorBranch_def emit_def
        found_def reading_at_def scanCooldown_def newId_def toString_1700000000000)

text \<open>
  Removing a record and clearing the list cannot bring two equal texts into a list
  that had none; it is the append of the decode callback that does.
\<close>

lemma remove_and_clear_keep_texts_distinct:
  assumes "distinct (map text_code (scannedCodes s))"
  shows "distinct (map text_code (scannedCodes (removeCode i s)))"
    and "distinct (map text_code (scannedCodes (clearAll s)))"
  using assms by (simp_all add: removeCode_def clearAll_def distinct_map_filter)

text \<open>
  Claim C1 at a concrete run: scanning starts on an empty list, and the same text is
  decoded twice, two seconds apart. Both are appended, since the callback compares
  with the list of the render that started the scan (empty), not with the list it
  appends to.
\<close>

theorem duplicate_text_is_stored_twice:
  "map_option (\<lambda>s. map text_code (scannedCodes s))
     (run [StartScanning granted,
           Decode (found ''A'') None (reading_at 1700000000000),
           Decode (found ''A'') None (reading_at 1700000002000)] mounted)
     = Some [''A'', ''A'']"
  by (simp only: run_start)
     (simp add: scanning_state deliver_def decodeCallback_def Let_def errorBranch_def emit_def
        found_def reading_at_def scanCooldown_def)


text \<open>
  Claim C2 at concrete runs: after the text A has been accepted and the status has
  reverted to the ready message, A is decoded again, one second later (inside the
  cooldown) or two seconds later (outside it). A is in the list then, yet both times
  the callback appends a second record and sets the accept status.
\<close>

theorem present_text_is_accepted_again:
  "map_option (\<lambda>s. (map text_code (scannedCodes s), scanStatus s))
     (run [StartScanning granted,
           Decode (found ''A'') None (reading_at 1700000000000),
           Timeout 0] mounted)
     = Some ([''A''], ''Ready - Point camera at barcode'') \<and>
   map_option (\<lambda>s. (map text_code (scannedCodes s), scanStatus s))
     (run [StartScanning granted,
           Decode (found ''A'') None (reading_at 1700000000000),
           Timeout 0,
           Decode (found ''A'') None (reading_at 1700000001000)] mounted)
     = Some ([''A'', ''A''], ''Barcode detected!'') \<and>
   map_option (\<lambda>s. (map text_code (scannedCodes s), scanStatus s))
     (run [StartScanning granted,
           Decode (found ''A'') None (reading_at 1700000000000),
           Timeout 0,
           Decode (found ''A'') None (reading_at 1700000002000)] mounted)
     = Some ([''A'', ''A''], ''Barcode detected!'')"
  by (simp only: run_start)
     (simp add: scanning_state deliver_def decodeCallback_def Let_def errorBranch_def emit_def
        found_def reading_at_def scanCooldown_def fireTimer_def runTimer_def)

text \<open>
  What the callback does for a text that is in the list of its closure: inside the
  cooldown nothing but the attempt counter changes; outside it the status becomes
  Already scanned, a revert is scheduled, and the list is left alone.
\<close>

lemma cooldown_policy_on_closure:
  assumes "list_ex (\<lambda>code. text_code code = getText r) (closed_scannedCodes c)"
  shows "(int (now k) - int (lastScanTime c) < scanCooldown
            \<longrightarrow> decodeCallback (Some r) err k (c, s) = (c\<lparr>scanAttempts := scanAttempts c + 1\<rparr>, s)) \<and>
         (\<not> int (now k) - int (lastScanTime c) < scanCooldown
            \<longrightarrow> decodeCallback (Some r) None k (c, s) =
                  (c\<lparr>scanAttempts := scanAttempts c + 1, lastScanTime := now k\<rparr>,
                   s\<lparr>scanStatus := ''Already scanned'',
                     timers := timers s @ [(800, RevertDuplicate)],
                     effects := effects s @ [ConsoleLog [''Barcode detected:'', getText r,
                                                         ''Format:'', getBarcodeFormat r]]\<rparr>))"
  using assms decodeCallback_suppresses decodeCallback_already_scanned by blast

section \<open>Ownership of the camera stream\<close>




























section \<open>Suspended calls\<close>



lemma loadCameras_uninterrupted:
  "loadCameras env s =
     (case loadCamerasPermission (permission env) (loadCamerasBegin s) of
        (Some l, s1) \<Rightarrow> loadCamerasListing (listing env) s1
      | (None, s1) \<Rightarrow> s1)"
  by (simp add: loadCameras_def loadCamerasTry_def loadCamerasPermission_def loadCamerasBegin_def
        loadCamerasListing_def loadCamerasEnd_def Let_def openStream_def addStream_def
        stopTracks_def emit_def
        split: media_outcome.split listing_outcome.split)

lemma startScanning_uninterrupted:
  "startScanning env s =
     snd (settle env (scannedCodes s)
           (settle env (scannedCodes s)
             (settle env (scannedCodes s) (startScanningBegin s))))"
proof (cases "\<not> codeReaderRef s \<or> \<not> videoRef s")
  case True
  then show ?thesis
    by (simp add: startScanning_def startScanningBegin_def settle_def)
next
  case ready: False
  show ?thesis
  proof (cases "length (availableCameras s) = 0")
    case True
    with ready show ?thesis
      by (cases "permission (reload env)"; cases "listing (reload env)")
         (simp_all add: startScanning_def startScanningBegin_def settle_def
            startScanningResume_def loadCameras_uninterrupted loadCamerasPermission_def Let_def)
  next
    case cams: False
    show ?thesis
    proof (cases "(if selectedCameraId s \<noteq> [] then selectedCameraId s
                   else deviceId (availableCameras s ! 0)) = []")
      case True
      with ready cams show ?thesis
        by (simp add: startScanning_def startScanningBegin_def settle_def Let_def)
    next
      case False
      with ready cams show ?thesis
        by (cases "fullStream env"; cases "fallbackStream env")
           (simp_all add: startScanning_def acquire_def startScanningBegin_def settle_def
              startScanningResume_def beginDecoding_def Let_def openStream_def addStream_def
              emit_def catchStart_def)
    qed
  qed
qed




lemma pending_catchStart: "pendingStarts (catchStart e s) = pendingStarts s"
  by (simp add: catchStart_def emit_def)












lemma pending_loadCamerasEnd: "pendingStarts (loadCamerasEnd thrown s) = pendingStarts s"
  by (simp add: loadCamerasEnd_def Let_def emit_def split: option.split)


lemma pending_loadCamerasPermission:
  "pendingStarts (snd (loadCamerasPermission outcome s)) = pendingStarts s"
  by (cases outcome)
     (simp_all add: loadCamerasPermission_def pending_loadCamerasEnd stopTracks_def addStream_def
        emit_def)


lemma pending_loadCamerasListing: "pendingStarts (loadCamerasListing outcome s) = pendingStarts s"
  by (cases outcome) (simp_all add: loadCamerasListing_def pending_loadCamerasEnd)






lemma all_dead:
  "list_all (\<lambda>i. \<not> liveStream (ss ! i)) [0..<length ss] \<longleftrightarrow> (\<forall>i<length ss. \<not> liveStream (ss ! i))"
  by (auto simp: list_all_iff)














lemma pending_startScanningResume:
  "pendingStarts (snd (startScanningResume st codes r s)) = pendingStarts s"
proof (cases st)
  case (AwaitReload l)
  then show ?thesis
  proof (cases l)
    case AwaitPermission
    show ?thesis
    proof (cases r)
      case (Media outcome focus)
      obtain l' s' where step: "loadCamerasPermission outcome s = (l', s')"
        by (cases "loadCamerasPermission outcome s")
      with pending_loadCamerasPermission [of outcome s] have "pendingStarts s' = pendingStarts s"
        by simp
      with step Media AwaitPermission AwaitReload show ?thesis
        by (cases l') (simp_all add: startScanningResume_def pending_catchStart)
    qed (simp_all add: startScanningResume_def AwaitPermission AwaitReload)
  next
    case AwaitListing
    with AwaitReload show ?thesis
      by (cases r)
         (simp_all add: startScanningResume_def pending_catchStart pending_loadCamerasListing)
  qed
next
  case (AwaitFullStream dev)
  then show ?thesis
    by (cases r)
       (simp_all add: startScanningResume_def addStream_def emit_def Let_def
          split: media_outcome.split)
next
  case (AwaitApplyConstraints dev k)
  then show ?thesis
    by (cases r) (simp_all add: startScanningResume_def emit_def)
next
  case (AwaitFallbackStream dev)
  then show ?thesis
    by (cases r)
       (simp_all add: startScanningResume_def addStream_def pending_catchStart
          split: media_outcome.split)
next
  case (AwaitVideoReady dev)
  then show ?thesis
    by (cases r) (simp_all add: startScanningResume_def beginDecoding_def emit_def Let_def)
qed












section \<open>Start, stop and restart\<close>


lemma stopped_state:
  "stopped =
     \<lparr>scannedCodes = [], isScanning = False, error = None,
      availableCameras = [\<lparr>deviceId = ''d1'', label = ''Front Camera''\<rparr>,
                          \<lparr>deviceId = ''d2'', label = ''Back Camera''\<rparr>],
      selectedCameraId = ''d2'', isLoading = False, scanStatus = [],
      codeReaderRef = True, videoRef = True, srcObject = None, border = [],
      boxShadow = [], streams = [[False], [False]], decoding = None, timers = [],
      effects = [ReaderCreate, GetUserMedia PermissionProbe, TrackStop 0 0, ListVideoInputDevices,
                 GetUserMedia (FullConstraints ''d2''), DecodeFromVideoDevice ''d2'',
                 ConsoleLog [''Barcode scanning started with device:'', ''d2''],
                 ConsoleLog [''Video dimensions:''], ReaderReset, TrackStop 1 0],
      pendingLoads = [], pendingStarts = []\<rparr>"
  by (simp add: stopped_def scanning_state stopScanning_def stopTracks_def emit_def)


lemma run_restart:
  "run [StartScanning granted, StopScanning ResetReturns, StartScanning granted] mounted = Some restarted"
proof -
  have "run [StartScanning granted, StopScanning ResetReturns, StartScanning granted] mounted
          = run [StopScanning ResetReturns, StartScanning granted] scanning"
    by (rule run_start)
  also have "\<dots> = run [StartScanning granted] stopped"
    by (simp add: stopped_def) (simp add: scanning_state)
  also have "\<dots> = Some restarted"
    by (simp add: restarted_def) (simp add: stopped_state)
  finally show ?thesis .
qed






























end
